theory Spec2Isabelle
  imports Complex_Main
begin

section \<open>GEE score test simulation: numbers, arrays and errors\<close>

text \<open>
  The script \<^verbatim>\<open>examples/python/gee_score_test_simulation.py\<close> computes with Python
  floats and one-dimensional numpy arrays of float64. A finite float is modelled by the
  real number it stands for; the three special
  values that numpy produces instead of raising (a division by zero, the square root of
  a negative number, the mean of an empty array) are kept as values of their own. Zero is
  the positive zero, which is the only zero the script divides by. The driver and the
  reporting stage are modelled with exact arithmetic on these numbers: what is proved
  about them is which calls are made, in which order and on which arguments. The
  rounding of binary64 is modelled where the claims are about the numbers themselves,
  in the gamma parameters of \<^verbatim>\<open>negbinom\<close> (\<open>negbinom_params64\<close>).
\<close>

datatype npfloat = Fin real | PInf | NInf | NaN

text \<open>Exceptions of the Python run time and of the libraries, as values.\<close>

datatype error = ZeroDivisionError | IndexError | KeyError | ValueError | LibraryError

fun np_add :: "npfloat \<Rightarrow> npfloat \<Rightarrow> npfloat" where
  "np_add (Fin a) (Fin b) = Fin (a + b)"
| "np_add NaN _ = NaN"
| "np_add _ NaN = NaN"
| "np_add PInf NInf = NaN"
| "np_add NInf PInf = NaN"
| "np_add PInf _ = PInf"
| "np_add _ PInf = PInf"
| "np_add NInf _ = NInf"
| "np_add _ NInf = NInf"

text \<open>The sign of a product with an infinity; \<open>0 * inf\<close> is NaN.\<close>

definition inf_times :: "bool \<Rightarrow> real \<Rightarrow> npfloat" where
  "inf_times pos a =
     (if a = 0 then NaN else if (0 < a) = pos then PInf else NInf)"

fun np_mul :: "npfloat \<Rightarrow> npfloat \<Rightarrow> npfloat" where
  "np_mul (Fin a) (Fin b) = Fin (a * b)"
| "np_mul NaN _ = NaN"
| "np_mul _ NaN = NaN"
| "np_mul PInf (Fin b) = inf_times True b"
| "np_mul NInf (Fin b) = inf_times False b"
| "np_mul (Fin a) PInf = inf_times True a"
| "np_mul (Fin a) NInf = inf_times False a"
| "np_mul PInf PInf = PInf"
| "np_mul NInf NInf = PInf"
| "np_mul PInf NInf = NInf"
| "np_mul NInf PInf = NInf"

text \<open>
  numpy's true division: a division by zero does not raise, it gives an infinity
  (or NaN for \<open>0 / 0\<close>) and a warning.
\<close>

fun np_div :: "npfloat \<Rightarrow> npfloat \<Rightarrow> npfloat" where
  "np_div (Fin a) (Fin b) =
     (if b \<noteq> 0 then Fin (a / b)
      else if 0 < a then PInf else if a < 0 then NInf else NaN)"
| "np_div NaN _ = NaN"
| "np_div _ NaN = NaN"
| "np_div (Fin a) PInf = Fin 0"
| "np_div (Fin a) NInf = Fin 0"
| "np_div PInf (Fin b) = (if 0 \<le> b then PInf else NInf)"
| "np_div NInf (Fin b) = (if 0 \<le> b then NInf else PInf)"
| "np_div PInf PInf = NaN"
| "np_div PInf NInf = NaN"
| "np_div NInf PInf = NaN"
| "np_div NInf NInf = NaN"

text \<open>\<^verbatim>\<open>np.sqrt\<close> of a Python float: NaN (and a warning) below zero.\<close>

definition np_sqrt :: "real \<Rightarrow> npfloat" where
  "np_sqrt a = (if a < 0 then NaN else Fin (sqrt a))"

text \<open>Python's true division of two floats raises on a zero divisor.\<close>

definition py_truediv :: "real \<Rightarrow> real \<Rightarrow> error + real" where
  "py_truediv a b = (if b = 0 then Inl ZeroDivisionError else Inr (a / b))"

section \<open>The negative binomial generator\<close>

text \<open>
  Lines 46 to 48 of \<^verbatim>\<open>negbinom\<close>, up to the call of the gamma sampler: the two
  arguments the sampler receives.
  \<^verbatim>\<open>
    p = (scale - 1) / scale
    r = mu * (1 - p) / p
    x = np.random.gamma(r, p / (1 - p), len(u))
  \<close>
  \<open>scale\<close> is a Python number, so the first and the third division are Python's and
  raise on zero; \<open>mu\<close> is an array, so the second one is numpy's. This is the reading
  in exact arithmetic, which the driver uses; \<open>negbinom_params64\<close> below is the reading
  in binary64, and the two take the same branch for every \<open>scale\<close> from 1 to \<open>2 powi 52\<close>
  (\<open>negbinom_params_same_branch\<close>).
\<close>

definition negbinom_params :: "npfloat list \<Rightarrow> real \<Rightarrow> error + (npfloat list \<times> real)" where
  "negbinom_params mu scale =
     (case py_truediv (scale - 1) scale of
        Inl e \<Rightarrow> Inl e
      | Inr p \<Rightarrow>
          let r = map (\<lambda>mu_i. np_div (np_mul mu_i (Fin (1 - p))) (Fin p)) mu
          in (case py_truediv p (1 - p) of
                Inl e \<Rightarrow> Inl e
              | Inr s \<Rightarrow> Inr (r, s)))"

section \<open>Arrays\<close>

text \<open>
  A one-dimensional array is a list, a two-dimensional one the list of its rows.
  \<^verbatim>\<open>np.arange(stop)\<close> of a float has \<open>ceil(stop)\<close> entries \<open>0.0, 1.0, ...\<close>;
  \<^verbatim>\<open>np.kron\<close> of two vectors lists the products \<open>a_i * b_j\<close>, \<open>i\<close> outermost.
\<close>

definition np_arange :: "real \<Rightarrow> real list" where
  "np_arange stop = map real [0..<nat \<lceil>stop\<rceil>]"

definition np_ones :: "nat \<Rightarrow> real list" where
  "np_ones k = replicate k 1"

definition np_kron :: "real list \<Rightarrow> real list \<Rightarrow> real list" where
  "np_kron a b = concat (map (\<lambda>a_i. map (\<lambda>b_j. a_i * b_j) b) a)"

text \<open>
  An elementwise operation on two vectors broadcasts a vector of length one and raises
  \<^verbatim>\<open>ValueError\<close> on any other mismatch of the lengths.
\<close>

definition np_broadcast2 :: "('a \<Rightarrow> 'b \<Rightarrow> 'c) \<Rightarrow> 'a list \<Rightarrow> 'b list \<Rightarrow> error + 'c list" where
  "np_broadcast2 f a b =
     (if length a = length b then Inr (map2 f a b)
      else if length a = 1 then Inr (map (f (hd a)) b)
      else if length b = 1 then Inr (map (\<lambda>a_i. f a_i (hd b)) a)
      else Inl ValueError)"

text \<open>
  \<^verbatim>\<open>np.dot\<close> of a matrix with \<open>ncols\<close> columns and a vector; the shapes must agree.
\<close>

definition np_dot :: "nat \<Rightarrow> real list list \<Rightarrow> real list \<Rightarrow> error + real list" where
  "np_dot ncols a v =
     (if ncols \<noteq> length v then Inl ValueError
      else Inr (map (\<lambda>row. sum_list (map2 (*) row v)) a))"

primrec np_sum :: "npfloat list \<Rightarrow> npfloat" where
  "np_sum [] = Fin 0"
| "np_sum (a # as) = np_add a (np_sum as)"

text \<open>\<^verbatim>\<open>np.mean\<close>: the mean of an empty array is NaN (and a warning), not an error.\<close>

definition np_mean :: "npfloat list \<Rightarrow> npfloat" where
  "np_mean as = (if as = [] then NaN else np_div (np_sum as) (Fin (real (length as))))"

text \<open>The comparison \<^verbatim>\<open>a < c\<close> of an array entry with a Python float; NaN compares false.\<close>

fun np_less :: "npfloat \<Rightarrow> real \<Rightarrow> bool" where
  "np_less (Fin a) c = (a < c)"
| "np_less NInf c = True"
| "np_less PInf c = False"
| "np_less NaN c = False"

text \<open>A boolean array entry read as a float, as \<^verbatim>\<open>np.mean\<close> does.\<close>

definition bool_float :: "bool \<Rightarrow> npfloat" where
  "bool_float b = Fin (if b then 1 else 0)"

text \<open>Indexing a Python list by an integer; a negative index counts from the end.\<close>

definition py_index :: "'a list \<Rightarrow> int \<Rightarrow> error + 'a" where
  "py_index xs i =
     (if 0 \<le> i \<and> i < int (length xs) then Inr (xs ! nat i)
      else if i < 0 \<and> - int (length xs) \<le> i then Inr (xs ! nat (int (length xs) + i))
      else Inl IndexError)"

text \<open>Floor division of two non-negative Python integers.\<close>

definition py_floordiv :: "nat \<Rightarrow> nat \<Rightarrow> error + nat" where
  "py_floordiv a b = (if b = 0 then Inl ZeroDivisionError else Inr (a div b))"

text \<open>\<^verbatim>\<open>lst[i].append(v)\<close> on a list of lists.\<close>

definition append_at :: "nat \<Rightarrow> 'a \<Rightarrow> 'a list list \<Rightarrow> error + 'a list list" where
  "append_at i v ls =
     (if i < length ls then Inr (ls[i := ls ! i @ [v]]) else Inl IndexError)"

section \<open>The libraries and the world\<close>

text \<open>
  numpy's random generator, scipy's distributions, statsmodels' GEE, pandas and
  matplotlib are not part of the script: they are parameters of the model. A call
  that draws random numbers, builds or fits a model, prints or plots reads and changes
  state outside the script (the process-wide generator, the model objects, the output),
  the world \<open>'w\<close>; it returns a value and the next world, or raises. \<open>'m\<close> is a GEE
  model object, \<open>'r\<close> a GEE results object. The normal sampler returns finite numbers.
\<close>

datatype cov_struct = Independence | Exchangeable

datatype family = Poisson

type_synonym ('a, 'w) io = "'w \<Rightarrow> error + ('a \<times> 'w)"

record ('w, 'm, 'r) lib =
  random_normal :: "nat \<Rightarrow> (real list, 'w) io"
  random_normal_2d :: "nat \<Rightarrow> nat \<Rightarrow> (real list list, 'w) io"
  random_gamma :: "npfloat list \<Rightarrow> real \<Rightarrow> nat \<Rightarrow> (npfloat list, 'w) io"
  norm_cdf :: "npfloat \<Rightarrow> npfloat"
  poisson_ppf :: "npfloat \<Rightarrow> npfloat \<Rightarrow> npfloat"
  GEE :: "npfloat list \<Rightarrow> real list list \<Rightarrow> real list \<Rightarrow> cov_struct option \<Rightarrow> family
            \<Rightarrow> ('m, 'w) io"
  fit :: "'m \<Rightarrow> string \<Rightarrow> ('r, 'w) io"
  res_scale :: "'r \<Rightarrow> npfloat"
  compare_score_test :: "'m \<Rightarrow> 'r \<Rightarrow> (string \<rightharpoonup> npfloat, 'w) io"
  print_frame :: "npfloat list list \<Rightarrow> string list \<Rightarrow> string list \<Rightarrow> (unit, 'w) io"
  boxplot :: "npfloat list list \<Rightarrow> (unit, 'w) io"
  ylabel :: "string \<Rightarrow> (unit, 'w) io"

text \<open>Sequencing: an exception ends the run, a result is passed on with the new world.\<close>

definition io_return :: "'a \<Rightarrow> ('a, 'w) io" where
  "io_return a w = Inr (a, w)"

definition io_bind :: "('a, 'w) io \<Rightarrow> ('a \<Rightarrow> ('b, 'w) io) \<Rightarrow> ('b, 'w) io" where
  "io_bind f g w = (case f w of Inl e \<Rightarrow> Inl e | Inr (a, w1) \<Rightarrow> g a w1)"

definition io_lift :: "error + 'a \<Rightarrow> ('a, 'w) io" where
  "io_lift v w = (case v of Inl e \<Rightarrow> Inl e | Inr a \<Rightarrow> Inr (a, w))"

section \<open>The negative binomial generator, whole\<close>

text \<open>
  \<^verbatim>\<open>
  def negbinom(u, mu, scale):
      p = (scale - 1) / scale
      r = mu * (1 - p) / p
      x = np.random.gamma(r, p / (1 - p), len(u))
      return poisson.ppf(u, mu=x)
  \<close>
\<close>

definition negbinom :: "('w, 'm, 'r) lib \<Rightarrow> npfloat list \<Rightarrow> npfloat list \<Rightarrow> real
    \<Rightarrow> (npfloat list, 'w) io" where
  "negbinom L u mu scale =
     io_bind (io_lift (negbinom_params mu scale)) (\<lambda>(r, s).
     io_bind (random_gamma L r s (length u)) (\<lambda>x.
     io_lift (np_broadcast2 (poisson_ppf L) u x)))"

section \<open>The negative binomial generator in binary64\<close>

text \<open>
  The numbers of lines 46 to 48 are IEEE 754 binary64 numbers, and each operation rounds
  its exact result to the nearest of them, a tie to the one with the even significand.
  \<open>rhe\<close> rounds a real to the nearest integer, a tie to the even one.
\<close>

definition rhe :: "real \<Rightarrow> int" where
  "rhe x = (let f = \<lfloor>x\<rfloor>; d = x - of_int f
            in if d < 1/2 then f else if 1/2 < d then f + 1
               else if even f then f else f + 1)"

text \<open>
  The exponent of the last place of the binary64 format at \<open>x\<close>: 52 places below the
  leading bit of \<open>x\<close>, and \<open>-1074\<close> for the subnormal numbers. \<open>rd x\<close> is the multiple
  of \<open>2 powi (fl_exp x)\<close> nearest to \<open>x\<close>.
\<close>

definition fl_exp :: "real \<Rightarrow> int" where
  "fl_exp x = max (\<lfloor>log 2 \<bar>x\<bar>\<rfloor> - 52) (- 1074)"

definition rd :: "real \<Rightarrow> real" where
  "rd x = of_int (rhe (x / 2 powi fl_exp x)) * 2 powi fl_exp x"

text \<open>
  \<open>fl x\<close> is the binary64 number an operation with the exact result \<open>x\<close> returns: the
  rounded value, or an infinity when that is \<open>2 powi 1024\<close> or more in magnitude.
  A result that rounds to zero is the zero \<open>Fin 0\<close>. \<open>rnd\<close> is \<open>fl\<close> on the values of
  numpy's arithmetic, which is exact up to here.
\<close>

definition fl :: "real \<Rightarrow> npfloat" where
  "fl x = (if x = 0 then Fin 0
           else if 2 powi 1024 \<le> \<bar>rd x\<bar> then (if 0 < x then PInf else NInf)
           else Fin (rd x))"

fun rnd :: "npfloat \<Rightarrow> npfloat" where
  "rnd (Fin x) = fl x"
| "rnd PInf = PInf"
| "rnd NInf = NInf"
| "rnd NaN = NaN"

fun np_neg :: "npfloat \<Rightarrow> npfloat" where
  "np_neg (Fin a) = Fin (- a)"
| "np_neg PInf = NInf"
| "np_neg NInf = PInf"
| "np_neg NaN = NaN"

text \<open>
  The argument \<open>scale\<close> is a Python number: an \<^verbatim>\<open>int\<close>, or a \<^verbatim>\<open>float\<close>, which is a
  binary64 number (\<open>is_pynum\<close>); \<open>py_real\<close> is the number it stands for. The script
  passes the \<^verbatim>\<open>int\<close> 10.
\<close>

datatype pynum = PyInt int | PyFloat real

fun py_real :: "pynum \<Rightarrow> real" where
  "py_real (PyInt s) = of_int s"
| "py_real (PyFloat x) = x"

fun is_pynum :: "pynum \<Rightarrow> bool" where
  "is_pynum (PyInt s) = True"
| "is_pynum (PyFloat x) = (fl x = Fin x)"

text \<open>
  Python's true division of two floats raises on a zero divisor and rounds otherwise;
  an overflow gives an infinity.
\<close>

definition py_float_truediv :: "npfloat \<Rightarrow> npfloat \<Rightarrow> error + npfloat" where
  "py_float_truediv a b =
     (if b = Fin 0 then Inl ZeroDivisionError else Inr (rnd (np_div a b)))"

text \<open>
  Line 46, \<^verbatim>\<open>p = (scale - 1) / scale\<close>. For an \<^verbatim>\<open>int\<close> the subtraction is exact and
  the true division of the two integers is rounded once; for a \<^verbatim>\<open>float\<close> the difference
  is rounded, then the quotient.
\<close>

fun negbinom_p :: "pynum \<Rightarrow> error + npfloat" where
  "negbinom_p (PyInt s) =
     (if s = 0 then Inl ZeroDivisionError else Inr (fl (of_int (s - 1) / of_int s)))"
| "negbinom_p (PyFloat x) = py_float_truediv (fl (x - 1)) (Fin x)"

text \<open>The float \<^verbatim>\<open>1 - p\<close> of lines 47 and 48.\<close>

definition one_minus :: "npfloat \<Rightarrow> npfloat" where
  "one_minus p = rnd (np_add (Fin 1) (np_neg p))"

text \<open>
  Lines 46 to 48 up to the call of the gamma sampler, in binary64: the shape array
  \<^verbatim>\<open>mu * (1 - p) / p\<close>, two numpy operations on each entry, each rounded and neither
  raising, and the scale parameter \<^verbatim>\<open>p / (1 - p)\<close>, a Python division.
\<close>

definition negbinom_params64 :: "npfloat list \<Rightarrow> pynum \<Rightarrow> error + (npfloat list \<times> npfloat)" where
  "negbinom_params64 mu scale =
     (case negbinom_p scale of
        Inl e \<Rightarrow> Inl e
      | Inr p \<Rightarrow>
          let q = one_minus p;
              r = map (\<lambda>mu_i. rnd (np_div (rnd (np_mul mu_i q)) p)) mu
          in (case py_float_truediv p q of
                Inl e \<Rightarrow> Inl e
              | Inr s \<Rightarrow> Inr (r, s)))"

(* lemmas *)

text \<open>
  \<^verbatim>\<open>negbinom\<close> with these parameters. The sampler \<open>gam\<close> receives the scale parameter as
  the binary64 value it is, which may be an infinity or NaN.
\<close>

definition negbinom64 :: "(npfloat list \<Rightarrow> npfloat \<Rightarrow> nat \<Rightarrow> (npfloat list, 'w) io)
    \<Rightarrow> ('w, 'm, 'r) lib \<Rightarrow> npfloat list \<Rightarrow> npfloat list \<Rightarrow> pynum \<Rightarrow> (npfloat list, 'w) io" where
  "negbinom64 gam L u mu scale =
     io_bind (io_lift (negbinom_params64 mu scale)) (\<lambda>(r, s).
     io_bind (gam r s (length u)) (\<lambda>x.
     io_lift (np_broadcast2 (poisson_ppf L) u x)))"

section \<open>The parameters of the simulation\<close>

text \<open>
  The module's globals that \<^verbatim>\<open>dosim\<close> reads. The script sets \<open>n = 1000\<close>, \<open>p = 5\<close>,
  \<open>m = 10\<close>, \<open>r = 0.5\<close> and \<open>scale = 10\<close>; the model takes them as parameters.
  \<^verbatim>\<open>
  grp = np.kron(np.arange(n / m), np.ones(m))
  x = np.random.normal(size=(n, p))
  x[:, 0] = 1
  x0 = x[:, 0:3]
  coeff = [[4, 0.4, -0.2], [4, 0.4, -0.2, 0, -0.04]]
  lp = [np.dot(x0, coeff[0]), np.dot(x, coeff[1])]
  mu = [np.exp(lp[0]), np.exp(lp[1])]
  \<close>
\<close>

record globals =
  glob_n :: nat
  glob_p :: nat
  glob_m :: nat
  glob_r :: real
  glob_grp :: "real list"
  glob_x :: "real list list"
  glob_x0 :: "real list list"
  glob_scale :: real
  glob_mu :: "npfloat list list"

definition grp :: "nat \<Rightarrow> nat \<Rightarrow> error + real list" where
  "grp n m =
     (case py_truediv (real n) (real m) of
        Inl e \<Rightarrow> Inl e
      | Inr q \<Rightarrow> Inr (np_kron (np_arange q) (np_ones m)))"

text \<open>\<^verbatim>\<open>x[:, 0] = 1\<close>: there must be a column 0.\<close>

definition set_column0 :: "nat \<Rightarrow> real list list \<Rightarrow> error + real list list" where
  "set_column0 ncols a =
     (if ncols = 0 then Inl IndexError else Inr (map (\<lambda>row. row[0 := 1]) a))"

definition x0 :: "real list list \<Rightarrow> real list list" where
  "x0 x = map (take 3) x"

definition coeff :: "real list list" where
  "coeff = [[4, 4/10, - (2/10)], [4, 4/10, - (2/10), 0, - (4/100)]]"

definition module_globals :: "('w, 'm, 'r) lib \<Rightarrow> nat \<Rightarrow> nat \<Rightarrow> nat \<Rightarrow> real \<Rightarrow> real
    \<Rightarrow> (globals, 'w) io" where
  "module_globals L n p m r scale =
     io_bind (io_lift (grp n m)) (\<lambda>g.
     io_bind (random_normal_2d L n p) (\<lambda>xr.
     io_bind (io_lift (set_column0 p xr)) (\<lambda>x.
     io_bind (io_lift (np_dot (min 3 p) (x0 x) (coeff ! 0))) (\<lambda>lp0.
     io_bind (io_lift (np_dot p x (coeff ! 1))) (\<lambda>lp1.
     io_return \<lparr> glob_n = n, glob_p = p, glob_m = m, glob_r = r, glob_grp = g,
                 glob_x = x, glob_x0 = x0 x, glob_scale = scale,
                 glob_mu = [map (\<lambda>a. Fin (exp a)) lp0, map (\<lambda>a. Fin (exp a)) lp1] \<rparr>)))))"

section \<open>The simulation driver\<close>

text \<open>
  Lines 121 and 122 of \<^verbatim>\<open>dosim\<close>, from the two normal draws \<open>z\<close> (one entry per
  observation) and \<open>u\<close> (one entry per cluster):
  \<^verbatim>\<open>
        u = np.kron(u, np.ones(m))
        z = r * z + np.sqrt(1 - r**2) * u
  \<close>
\<close>

definition corr_normal :: "real \<Rightarrow> real list \<Rightarrow> real list \<Rightarrow> nat \<Rightarrow> error + npfloat list" where
  "corr_normal r z u m =
     (let u1 = np_kron u (np_ones m)
      in np_broadcast2 np_add
           (map (\<lambda>z_i. Fin (r * z_i)) z)
           (map (\<lambda>u_i. np_mul (np_sqrt (1 - r\<^sup>2)) (Fin u_i)) u1))"

text \<open>
  The body of the Monte Carlo loop (lines 119 to 148), on the loop's two accumulators
  \<open>scales\<close> and \<open>pv\<close>.
\<close>

definition dosim_iter :: "('w, 'm, 'r) lib \<Rightarrow> globals \<Rightarrow> int \<Rightarrow> cov_struct option
    \<Rightarrow> npfloat list list \<times> npfloat list \<Rightarrow> (npfloat list list \<times> npfloat list, 'w) io" where
  "dosim_iter L G hyp cov acc =
     io_bind (random_normal L (glob_n G)) (\<lambda>z.
     io_bind (io_lift (py_floordiv (glob_n G) (glob_m G))) (\<lambda>k.
     io_bind (random_normal L k) (\<lambda>u.
     io_bind (io_lift (corr_normal (glob_r G) z u (glob_m G))) (\<lambda>z1.
     io_bind (io_lift (py_index (glob_mu G) hyp)) (\<lambda>mu_h.
     io_bind (negbinom L (map (norm_cdf L) z1) mu_h (glob_scale G)) (\<lambda>y.
     io_bind (GEE L y (glob_x0 G) (glob_grp G) cov Poisson) (\<lambda>m0.
     io_bind (fit L m0 ''X2'') (\<lambda>r0.
     io_bind (io_lift (append_at 0 (res_scale L r0) (fst acc))) (\<lambda>scales1.
     io_bind (GEE L y (glob_x G) (glob_grp G) cov Poisson) (\<lambda>m1.
     io_bind (fit L m1 ''X2'') (\<lambda>r1.
     io_bind (io_lift (append_at 1 (res_scale L r1) scales1)) (\<lambda>scales2.
     io_bind (compare_score_test L m1 r0) (\<lambda>st.
     io_bind (io_lift (case st ''p-value'' of None \<Rightarrow> Inl KeyError | Some v \<Rightarrow> Inr v)) (\<lambda>pval.
     io_return (scales2, snd acc @ [pval])))))))))))))))"

text \<open>\<^verbatim>\<open>for k in range(mcrep)\<close>, the loop variable unused: the body, \<open>k\<close> times.\<close>

fun dosim_loop :: "('w, 'm, 'r) lib \<Rightarrow> globals \<Rightarrow> int \<Rightarrow> cov_struct option \<Rightarrow> nat
    \<Rightarrow> npfloat list list \<times> npfloat list \<Rightarrow> (npfloat list list \<times> npfloat list, 'w) io" where
  "dosim_loop L G hyp cov 0 acc = io_return acc"
| "dosim_loop L G hyp cov (Suc k) acc =
     io_bind (dosim_iter L G hyp cov acc) (dosim_loop L G hyp cov k)"

text \<open>
  \<^verbatim>\<open>
  def dosim(hyp, cov_struct=None, mcrep=500):
      scales = [[], []]
      pv = []
      for k in range(mcrep): ...
      pv = np.asarray(pv)
      rslt = [np.mean(pv), np.mean(pv < 0.1)]
      return rslt, scales
  \<close>
  \<open>range\<close> of a negative count is empty.
\<close>

definition dosim_mcrep_default :: int where
  "dosim_mcrep_default = 500"

definition dosim :: "('w, 'm, 'r) lib \<Rightarrow> globals \<Rightarrow> int \<Rightarrow> cov_struct option \<Rightarrow> int
    \<Rightarrow> (npfloat list \<times> npfloat list list, 'w) io" where
  "dosim L G hyp cov mcrep =
     io_bind (dosim_loop L G hyp cov (nat mcrep) ([[], []], [])) (\<lambda>(scales, pv).
     io_return ([np_mean pv, np_mean (map (\<lambda>a. bool_float (np_less a (1/10))) pv)], scales))"

section \<open>The reporting stage\<close>

text \<open>
  \<^verbatim>\<open>
  rslt, scales = [], []
  for hyp in 0, 1:
      s, t = dosim(hyp, cov_struct, mcrep)
      rslt.append(s)
      scales.append(t)
  rslt = pd.DataFrame(rslt, index=["H0", "H1"], columns=["Mean", "Prop(p<0.1)"])
  print(rslt)
  \<close>
  The script has this passage twice, with different arguments of \<^verbatim>\<open>dosim\<close>. Building
  the data frame and printing it are one call of the library, \<open>print_frame\<close>.
\<close>

definition report_cycle :: "('w, 'm, 'r) lib \<Rightarrow> globals \<Rightarrow> cov_struct option \<Rightarrow> int
    \<Rightarrow> (npfloat list list \<times> npfloat list list list, 'w) io" where
  "report_cycle L G cov mcrep =
     io_bind (dosim L G 0 cov mcrep) (\<lambda>(s_0, t_0).
     io_bind (dosim L G 1 cov mcrep) (\<lambda>(s_1, t_1).
     io_bind (print_frame L [s_0, s_1] [''H0'', ''H1''] [''Mean'', ''Prop(p<0.1)'']) (\<lambda>_.
     io_return ([s_0, s_1], [t_0, t_1]))))"

text \<open>
  \<^verbatim>\<open>[scales[0][0], scales[0][1], scales[1][0], scales[1][1]]\<close>, the four groups of the
  box plot.
\<close>

definition index2 :: "'a list list \<Rightarrow> int \<Rightarrow> int \<Rightarrow> error + 'a" where
  "index2 ls i j = (case py_index ls i of Inl e \<Rightarrow> Inl e | Inr row \<Rightarrow> py_index row j)"

definition boxplot_groups :: "npfloat list list list \<Rightarrow> error + npfloat list list" where
  "boxplot_groups scales =
     (case index2 scales 0 0 of Inl e \<Rightarrow> Inl e | Inr a \<Rightarrow>
      case index2 scales 0 1 of Inl e \<Rightarrow> Inl e | Inr b \<Rightarrow>
      case index2 scales 1 0 of Inl e \<Rightarrow> Inl e | Inr c \<Rightarrow>
      case index2 scales 1 1 of Inl e \<Rightarrow> Inl e | Inr d \<Rightarrow> Inr [a, b, c, d])"

text \<open>
  The module from top to bottom: the globals, the first cycle with
  \<^verbatim>\<open>dosim(hyp, sm.cov_struct.Independence())\<close>, the box plot and its label, the second
  cycle with \<^verbatim>\<open>dosim(hyp, sm.cov_struct.Exchangeable(), mcrep=100)\<close>.
\<close>

definition script :: "('w, 'm, 'r) lib \<Rightarrow> nat \<Rightarrow> nat \<Rightarrow> nat \<Rightarrow> real \<Rightarrow> real \<Rightarrow> (unit, 'w) io" where
  "script L n p m r scale =
     io_bind (module_globals L n p m r scale) (\<lambda>G.
     io_bind (report_cycle L G (Some Independence) dosim_mcrep_default) (\<lambda>(rslt, scales).
     io_bind (io_lift (boxplot_groups scales)) (\<lambda>groups.
     io_bind (boxplot L groups) (\<lambda>_.
     io_bind (ylabel L ''Estimated scale'') (\<lambda>_.
     io_bind (report_cycle L G (Some Exchangeable) 100) (\<lambda>(rslt2, scales2).
     io_return ()))))))"

definition gee_score_test_simulation :: "('w, 'm, 'r) lib \<Rightarrow> (unit, 'w) io" where
  "gee_score_test_simulation L = script L 1000 5 10 (1/2) 10"

section \<open>A small deterministic library\<close>

text \<open>
  A stand-in for the libraries on which the script can be run by hand: the world is a
  counter of the calls made so far, a model object is the number of columns of its
  design matrix, a results object is the model's number.
\<close>

definition toy_lib :: "(nat, nat, nat) lib" where
  "toy_lib = \<lparr>
     random_normal = (\<lambda>k w. Inr (map (\<lambda>i. real (w + i)) [0..<k], Suc w)),
     random_normal_2d = (\<lambda>n p w. Inr (map (\<lambda>i. map (\<lambda>j. real (i + j)) [0..<p]) [0..<n], Suc w)),
     random_gamma = (\<lambda>shape s k w. Inr (replicate k (Fin 2), Suc w)),
     norm_cdf = (\<lambda>a. Fin (1/2)),
     poisson_ppf = (\<lambda>q x. case x of Fin a \<Rightarrow> Fin (real (nat \<lfloor>a\<rfloor>)) | _ \<Rightarrow> NaN),
     GEE = (\<lambda>y X g c f w. Inr (case X of [] \<Rightarrow> 0 | row # _ \<Rightarrow> length row, Suc w)),
     fit = (\<lambda>m s w. Inr (m, Suc w)),
     res_scale = (\<lambda>r. Fin (real r)),
     compare_score_test = (\<lambda>m r w. Inr ([''p-value'' \<mapsto> Fin (1 / real (m + r))], Suc w)),
     print_frame = (\<lambda>t i c w. Inr ((), Suc w)),
     boxplot = (\<lambda>b w. Inr ((), Suc w)),
     ylabel = (\<lambda>s w. Inr ((), Suc w)) \<rparr>"

definition toy_gamma64 :: "npfloat list \<Rightarrow> npfloat \<Rightarrow> nat \<Rightarrow> (npfloat list, nat) io" where
  "toy_gamma64 shape s k w = Inr (replicate k (Fin 2), Suc w)"

definition toy_globals :: globals where
  "toy_globals = \<lparr> glob_n = 2, glob_p = 5, glob_m = 2, glob_r = 0,
     glob_grp = [0, 0], glob_x = [[1, 1, 2, 3, 4], [1, 2, 3, 4, 5]],
     glob_x0 = [[1, 1, 2], [1, 2, 3]], glob_scale = 10,
     glob_mu = [[Fin 3, Fin 1], [Fin 3, Fin 2]] \<rparr>"

text \<open>
  A second stand-in whose calls depend on their arguments: the distribution function is
  \<open>v / 10\<close>, a gamma draw is its mean \<open>shape * scale\<close>, the quantile is
  \<open>floor (x + 100 * q)\<close>, a model object is the sum of the responses and the number of
  columns of the design matrix, and the estimated scale is the sum of the two. The
  globals have two clusters of two observations and \<open>r = 3/5\<close>.
\<close>

definition toy_lib2 :: "(nat, npfloat \<times> nat, npfloat \<times> nat) lib" where
  "toy_lib2 = \<lparr>
     random_normal = (\<lambda>k w. Inr (map (\<lambda>i. real (w + i)) [0..<k], Suc w)),
     random_normal_2d = (\<lambda>n p w. Inr (map (\<lambda>i. map (\<lambda>j. real (i + j)) [0..<p]) [0..<n], Suc w)),
     random_gamma = (\<lambda>shape s k w. Inr (map (\<lambda>a. np_mul a (Fin s)) shape, Suc w)),
     norm_cdf = (\<lambda>a. case a of Fin v \<Rightarrow> Fin (v / 10) | _ \<Rightarrow> NaN),
     poisson_ppf = (\<lambda>q x. case (q, x) of (Fin b, Fin a) \<Rightarrow> Fin (real (nat \<lfloor>a + 100 * b\<rfloor>))
                           | _ \<Rightarrow> NaN),
     GEE = (\<lambda>y X g c f w. Inr ((np_sum y, case X of [] \<Rightarrow> 0 | row # _ \<Rightarrow> length row), Suc w)),
     fit = (\<lambda>m s w. Inr (m, Suc w)),
     res_scale = (\<lambda>r. np_add (fst r) (Fin (real (snd r)))),
     compare_score_test =
       (\<lambda>m r w. Inr ([''p-value'' \<mapsto> Fin (1 / real (snd m + snd r))], Suc w)),
     print_frame = (\<lambda>t i c w. Inr ((), Suc w)),
     boxplot = (\<lambda>b w. Inr ((), Suc w)),
     ylabel = (\<lambda>s w. Inr ((), Suc w)) \<rparr>"

definition toy_globals2 :: globals where
  "toy_globals2 = \<lparr> glob_n = 4, glob_p = 5, glob_m = 2, glob_r = 3/5,
     glob_grp = [0, 0, 1, 1],
     glob_x = [[1, 1, 2, 3, 4], [1, 2, 3, 4, 5], [1, 3, 4, 5, 6], [1, 4, 5, 6, 7]],
     glob_x0 = [[1, 1, 2], [1, 2, 3], [1, 3, 4], [1, 4, 5]], glob_scale = 10,
     glob_mu = [[Fin 1, Fin 1, Fin 1, Fin 1], [Fin 3, Fin 2, Fin 5, Fin 7]] \<rparr>"

section \<open>What the libraries promise\<close>

text \<open>
  The contracts of the external collaborators (section 6 of the specification), used as
  hypotheses only: the samplers return arrays of the requested length, a gamma draw with
  valid parameters is a finite non-negative number, the Poisson quantile of a
  probability strictly between 0 and 1 is a non-negative integer, a p-value lies in
  \<open>[0, 1]\<close>.
\<close>

definition normal_contract :: "('w, 'm, 'r) lib \<Rightarrow> bool" where
  "normal_contract L \<longleftrightarrow>
     (\<forall>k w. \<exists>z w1. random_normal L k w = Inr (z, w1) \<and> length z = k)"

definition normal_2d_contract :: "('w, 'm, 'r) lib \<Rightarrow> bool" where
  "normal_2d_contract L \<longleftrightarrow>
     (\<forall>n p w. \<exists>xr w1. random_normal_2d L n p w = Inr (xr, w1)
        \<and> length xr = n \<and> (\<forall>row \<in> set xr. length row = p))"

definition gamma_contract :: "('w, 'm, 'r) lib \<Rightarrow> bool" where
  "gamma_contract L \<longleftrightarrow>
     (\<forall>shape s k w.
        0 < s \<and> length shape = k \<and> (\<forall>a \<in> set shape. \<exists>v. a = Fin v \<and> 0 < v)
        \<longrightarrow> (\<exists>x w1. random_gamma L shape s k w = Inr (x, w1) \<and> length x = k
               \<and> (\<forall>a \<in> set x. \<exists>v. a = Fin v \<and> 0 \<le> v)))"

text \<open>The same contract for a sampler that takes the scale parameter as a binary64 value.\<close>

definition gamma_contract64 :: "(npfloat list \<Rightarrow> npfloat \<Rightarrow> nat \<Rightarrow> (npfloat list, 'w) io) \<Rightarrow> bool" where
  "gamma_contract64 gam \<longleftrightarrow>
     (\<forall>shape s k w.
        (\<exists>v. s = Fin v \<and> 0 < v) \<and> length shape = k \<and> (\<forall>a \<in> set shape. \<exists>v. a = Fin v \<and> 0 < v)
        \<longrightarrow> (\<exists>x w1. gam shape s k w = Inr (x, w1) \<and> length x = k
               \<and> (\<forall>a \<in> set x. \<exists>v. a = Fin v \<and> 0 \<le> v)))"

definition ppf_contract :: "('w, 'm, 'r) lib \<Rightarrow> bool" where
  "ppf_contract L \<longleftrightarrow>
     (\<forall>q x. 0 < q \<and> q < 1 \<and> 0 \<le> x
        \<longrightarrow> (\<exists>j::nat. poisson_ppf L (Fin q) (Fin x) = Fin (real j)))"

text \<open>Model building, fitting and the score test do not fail.\<close>

definition gee_contract :: "('w, 'm, 'r) lib \<Rightarrow> bool" where
  "gee_contract L \<longleftrightarrow>
     (\<forall>y X g c f w. \<exists>m w1. GEE L y X g c f w = Inr (m, w1))
   \<and> (\<forall>m s w. \<exists>r w1. fit L m s w = Inr (r, w1))
   \<and> (\<forall>m r w. \<exists>st w1 v. compare_score_test L m r w = Inr (st, w1)
          \<and> st ''p-value'' = Some v)"

text \<open>Printing the table and drawing the box plot do not fail.\<close>

definition report_contract :: "('w, 'm, 'r) lib \<Rightarrow> bool" where
  "report_contract L \<longleftrightarrow>
     (\<forall>t i c w. \<exists>w1. print_frame L t i c w = Inr ((), w1))
   \<and> (\<forall>b w. \<exists>w1. boxplot L b w = Inr ((), w1))
   \<and> (\<forall>s w. \<exists>w1. ylabel L s w = Inr ((), w1))"

definition in_unit :: "npfloat \<Rightarrow> bool" where
  "in_unit a = (case a of Fin v \<Rightarrow> 0 \<le> v \<and> v \<le> 1 | _ \<Rightarrow> False)"

definition pvalue_contract :: "('w, 'm, 'r) lib \<Rightarrow> bool" where
  "pvalue_contract L \<longleftrightarrow>
     (\<forall>m r w st w1 v. compare_score_test L m r w = Inr (st, w1)
        \<and> st ''p-value'' = Some v \<longrightarrow> in_unit v)"

text \<open>
  Globals on which a replicate cannot fail: the cluster size divides the sample size,
  the dispersion exceeds 1, and the two mean vectors are positive, of length \<open>n\<close>.
\<close>

definition globals_ok :: "globals \<Rightarrow> bool" where
  "globals_ok G \<longleftrightarrow>
     0 < glob_m G \<and> glob_m G dvd glob_n G \<and> 1 < glob_scale G
   \<and> length (glob_mu G) = 2
   \<and> (\<forall>mu \<in> set (glob_mu G). length mu = glob_n G
         \<and> (\<forall>a \<in> set mu. \<exists>v. a = Fin v \<and> 0 < v))"

section \<open>A replicate, as the specification describes it\<close>

text \<open>
  Section 4.3 of the specification, steps 1 to 6, as a relation between the world before
  a replicate, what the replicate contributes (the two estimated scale parameters and
  the p-value) and the world after it. Each call starts in the world the call before it
  left, which fixes the order of the calls.
\<close>

definition replicate_run :: "('w, 'm, 'r) lib \<Rightarrow> globals \<Rightarrow> int \<Rightarrow> cov_struct option
    \<Rightarrow> 'w \<Rightarrow> npfloat \<times> npfloat \<times> npfloat \<Rightarrow> 'w \<Rightarrow> bool" where
  "replicate_run L G hyp cov w out w' \<longleftrightarrow>
     (\<exists>z w1 u w2 z1 mu_h y w3 m0 w4 r0 w5 m1 w6 r1 w7 st pval.
        random_normal L (glob_n G) w = Inr (z, w1)
      \<and> glob_m G \<noteq> 0
      \<and> random_normal L (glob_n G div glob_m G) w1 = Inr (u, w2)
      \<and> corr_normal (glob_r G) z u (glob_m G) = Inr z1
      \<and> py_index (glob_mu G) hyp = Inr mu_h
      \<and> negbinom L (map (norm_cdf L) z1) mu_h (glob_scale G) w2 = Inr (y, w3)
      \<and> GEE L y (glob_x0 G) (glob_grp G) cov Poisson w3 = Inr (m0, w4)
      \<and> fit L m0 ''X2'' w4 = Inr (r0, w5)
      \<and> GEE L y (glob_x G) (glob_grp G) cov Poisson w5 = Inr (m1, w6)
      \<and> fit L m1 ''X2'' w6 = Inr (r1, w7)
      \<and> compare_score_test L m1 r0 w7 = Inr (st, w')
      \<and> st ''p-value'' = Some pval
      \<and> out = (res_scale L r0, res_scale L r1, pval))"

primrec replicates_run :: "('w, 'm, 'r) lib \<Rightarrow> globals \<Rightarrow> int \<Rightarrow> cov_struct option
    \<Rightarrow> (npfloat \<times> npfloat \<times> npfloat) list \<Rightarrow> 'w \<Rightarrow> 'w \<Rightarrow> bool" where
  "replicates_run L G hyp cov [] w w' \<longleftrightarrow> w' = w"
| "replicates_run L G hyp cov (out # outs) w w' \<longleftrightarrow>
     (\<exists>w1. replicate_run L G hyp cov w out w1 \<and> replicates_run L G hyp cov outs w1 w')"

text \<open>
  The same steps with the two vectors written out rather than taken from the code. The
  correlated uniform vector of section 4.1: entry \<open>i\<close> is the normal distribution
  function at \<open>r * z_i + sqrt (1 - r\<^sup>2) * u_(i div m)\<close>, where \<open>z\<close> has one draw per
  observation and \<open>u\<close> one per cluster of \<open>m\<close> consecutive observations (the square
  root of a negative number is NaN, and so is every entry then). The mean vector
  selected by the hypothesis: the null one for 0, the alternative one for 1.
\<close>

definition correlated_uniform :: "('w, 'm, 'r) lib \<Rightarrow> nat \<Rightarrow> nat \<Rightarrow> real \<Rightarrow> real list \<Rightarrow> real list
    \<Rightarrow> npfloat list" where
  "correlated_uniform L n m r z u =
     map (\<lambda>i. norm_cdf L (if r\<^sup>2 \<le> 1
                            then Fin (r * z ! i + sqrt (1 - r\<^sup>2) * u ! (i div m))
                            else NaN)) [0..<n]"

definition selected_mean :: "globals \<Rightarrow> int \<Rightarrow> npfloat list" where
  "selected_mean G hyp = (if hyp = 0 then glob_mu G ! 0 else glob_mu G ! 1)"

definition replicate_steps :: "('w, 'm, 'r) lib \<Rightarrow> globals \<Rightarrow> int \<Rightarrow> cov_struct option
    \<Rightarrow> 'w \<Rightarrow> npfloat \<times> npfloat \<times> npfloat \<Rightarrow> 'w \<Rightarrow> bool" where
  "replicate_steps L G hyp cov w out w' \<longleftrightarrow>
     (\<exists>z w1 u w2 y w3 m0 w4 r0 w5 m1 w6 r1 w7 st pval.
        random_normal L (glob_n G) w = Inr (z, w1)
      \<and> length z = glob_n G
      \<and> glob_m G \<noteq> 0
      \<and> random_normal L (glob_n G div glob_m G) w1 = Inr (u, w2)
      \<and> length u = glob_n G div glob_m G
      \<and> negbinom L (correlated_uniform L (glob_n G) (glob_m G) (glob_r G) z u)
          (selected_mean G hyp) (glob_scale G) w2 = Inr (y, w3)
      \<and> GEE L y (glob_x0 G) (glob_grp G) cov Poisson w3 = Inr (m0, w4)
      \<and> fit L m0 ''X2'' w4 = Inr (r0, w5)
      \<and> GEE L y (glob_x G) (glob_grp G) cov Poisson w5 = Inr (m1, w6)
      \<and> fit L m1 ''X2'' w6 = Inr (r1, w7)
      \<and> compare_score_test L m1 r0 w7 = Inr (st, w')
      \<and> st ''p-value'' = Some pval
      \<and> out = (res_scale L r0, res_scale L r1, pval))"

primrec replicates_steps :: "('w, 'm, 'r) lib \<Rightarrow> globals \<Rightarrow> int \<Rightarrow> cov_struct option
    \<Rightarrow> (npfloat \<times> npfloat \<times> npfloat) list \<Rightarrow> 'w \<Rightarrow> 'w \<Rightarrow> bool" where
  "replicates_steps L G hyp cov [] w w' \<longleftrightarrow> w' = w"
| "replicates_steps L G hyp cov (out # outs) w w' \<longleftrightarrow>
     (\<exists>w1. replicate_steps L G hyp cov w out w1 \<and> replicates_steps L G hyp cov outs w1 w')"

text \<open>
  One reporting cycle (section 4.4): the driver for the null hypothesis, the driver for
  the alternative, then the printed two-row table.
\<close>

definition cycle_run :: "('w, 'm, 'r) lib \<Rightarrow> globals \<Rightarrow> cov_struct option \<Rightarrow> int
    \<Rightarrow> 'w \<Rightarrow> npfloat list list list \<Rightarrow> 'w \<Rightarrow> bool" where
  "cycle_run L G cov mcrep w scales w' \<longleftrightarrow>
     (\<exists>s_0 t_0 w1 s_1 t_1 w2.
        dosim L G 0 cov mcrep w = Inr ((s_0, t_0), w1)
      \<and> dosim L G 1 cov mcrep w1 = Inr ((s_1, t_1), w2)
      \<and> print_frame L [s_0, s_1] [''H0'', ''H1''] [''Mean'', ''Prop(p<0.1)''] w2 = Inr ((), w')
      \<and> scales = [t_0, t_1]
      \<and> length t_0 = 2 \<and> length t_1 = 2
      \<and> (\<forall>l \<in> set (t_0 @ t_1). length l = nat mcrep))"

text \<open>
  The columns of a matrix with \<open>k\<close> columns are linearly independent: only the zero
  vector is mapped to zero.
\<close>

definition lin_indep_cols :: "nat \<Rightarrow> real list list \<Rightarrow> bool" where
  "lin_indep_cols k X \<longleftrightarrow>
     (\<forall>b. length b = k \<and> (\<forall>row \<in> set X. sum_list (map2 (*) row b) = 0)
        \<longrightarrow> (\<forall>c \<in> set b. c = 0))"

section \<open>Sequencing lemmas\<close>

lemma io_bind_Inr:
  "io_bind f g w = Inr (b, w') \<longleftrightarrow> (\<exists>a w1. f w = Inr (a, w1) \<and> g a w1 = Inr (b, w'))"
  by (auto simp: io_bind_def split: sum.splits)

lemma io_lift_Inr: "io_lift v w = Inr (a, w') \<longleftrightarrow> v = Inr a \<and> w' = w"
  by (auto simp: io_lift_def split: sum.splits)

lemma io_return_Inr: "io_return a w = Inr (b, w') \<longleftrightarrow> b = a \<and> w' = w"
  by (auto simp: io_return_def)

section \<open>Properties of the gamma parameters\<close>

lemma negbinom_params_eq:
  assumes "scale \<noteq> 0"
  shows "negbinom_params mu scale =
    Inr (map (\<lambda>mu_i. np_div (np_mul mu_i (Fin (1 - (scale - 1) / scale)))
                         (Fin ((scale - 1) / scale))) mu,
         ((scale - 1) / scale) / (1 - (scale - 1) / scale))"
proof -
  have "1 - (scale - 1) / scale = 1 / scale"
    using assms by (simp add: field_simps)
  then have "1 - (scale - 1) / scale \<noteq> 0"
    using assms by simp
  then show ?thesis
    using assms by (simp add: negbinom_params_def py_truediv_def)
qed

lemma negbinom_reaches_gamma:
  assumes "negbinom_params mu scale = Inr (shape, s)"
  shows "negbinom L u mu scale w =
     io_bind (random_gamma L shape s (length u))
       (\<lambda>x. io_lift (np_broadcast2 (poisson_ppf L) u x)) w"
  using assms by (simp add: negbinom_def io_bind_def io_lift_def)

section \<open>Rounding to binary64\<close>

text \<open>
  The error of one rounding (\<open>rd_err\<close>), the value of \<open>fl\<close> on a number whose binade is
  known (\<open>fl_eval\<close>, by which \<open>fl\<close> is computed on rationals), the relative error
  \<open>2 powi (-53)\<close> of a result in the normal range (\<open>fl_rel\<close>), and what rounding keeps
  of the order: the sign, being at least 1, being at most a negative binary64 number.
\<close>

lemma rhe_err: "\<bar>of_int (rhe x) - x\<bar> \<le> 1/2"
  unfolding rhe_def Let_def by (auto simp: abs_le_iff)

lemma rhe_ge_floor: "\<lfloor>x\<rfloor> \<le> rhe x"
  unfolding rhe_def Let_def by auto

lemma rhe_le_ceil: "rhe x \<le> \<lceil>x\<rceil>"
  unfolding rhe_def Let_def by (auto simp: ceiling_altdef) 

lemma rhe_of_int: "rhe (of_int k) = k"
  unfolding rhe_def Let_def by simp

lemma fl_exp_normal:
  assumes "2 powi k \<le> \<bar>x\<bar>" and "\<bar>x\<bar> < 2 powi (k + 1)" and "- 1022 \<le> k"
  shows "fl_exp x = k - 52"
proof -
  have x: "0 < \<bar>x\<bar>" using assms(1) by (smt (verit) zero_less_power_int)
  have a: "(2::real) powr real_of_int k = 2 powi k"
    by (simp add: powr_real_of_int')
  have b: "(2::real) powr real_of_int (k + 1) = 2 powi (k + 1)"
    by (rule powr_real_of_int') simp_all
  have iff: "(\<lfloor>log 2 \<bar>x\<bar>\<rfloor> = k)
      = (2 powr real_of_int k \<le> \<bar>x\<bar> \<and> \<bar>x\<bar> < 2 powr real_of_int (k + 1))"
    by (rule floor_log_eq_powr_iff [OF x]) simp
  have "\<lfloor>log 2 \<bar>x\<bar>\<rfloor> = k"
    unfolding iff a b using assms(1,2) by (rule conjI)
  then show ?thesis using assms(3) by (simp add: fl_exp_def)
qed

lemma rd_err: "\<bar>rd x - x\<bar> \<le> 2 powi fl_exp x / 2"
proof -
  let ?e = "fl_exp x"
  have pos: "0 < (2::real) powi ?e" by (simp add: zero_less_power_int)
  have "rd x - x = (of_int (rhe (x / 2 powi ?e)) - x / 2 powi ?e) * 2 powi ?e"
    using pos by (simp add: rd_def field_simps)
  then have "\<bar>rd x - x\<bar> = \<bar>of_int (rhe (x / 2 powi ?e)) - x / 2 powi ?e\<bar> * 2 powi ?e"
    using pos by (simp add: abs_mult)
  also have "\<dots> \<le> 1/2 * 2 powi ?e"
    using rhe_err [of "x / 2 powi ?e"] pos by (intro mult_right_mono) simp_all
  finally show ?thesis by simp
qed

lemma fl_eval:
  assumes "2 powi k \<le> \<bar>x\<bar>" and "\<bar>x\<bar> < 2 powi (k + 1)" and "- 1022 \<le> k" and "k \<le> 1022"
  shows "fl x = Fin (of_int (rhe (x / 2 powi (k - 52))) * 2 powi (k - 52))"
proof -
  have e: "fl_exp x = k - 52" by (rule fl_exp_normal [OF assms(1-3)])
  have x0: "x \<noteq> 0" using assms(1) by (smt (verit) zero_less_power_int)
  have "(2::real) powi (k - 52) / 2 \<le> 2 powi (k + 1)"
  proof -
    have "(2::real) powi (k - 52) \<le> 2 powi (k + 1)"
      by (rule power_int_increasing) simp_all
    moreover have "0 < (2::real) powi (k - 52)" by (simp add: zero_less_power_int)
    ultimately show ?thesis by linarith
  qed
  then have "\<bar>rd x\<bar> < 2 powi (k + 1) + 2 powi (k + 1)"
    using rd_err [of x] assms(2) unfolding e by linarith
  also have "\<dots> = 2 powi (k + 2)"
    by (simp add: power_int_add)
  also have "\<dots> \<le> 2 powi 1024"
    using assms(4) by (intro power_int_increasing) simp_all
  finally have "\<not> 2 powi 1024 \<le> \<bar>rd x\<bar>" by simp
  then show ?thesis using x0 by (simp add: fl_def rd_def e)
qed

lemma floor_log2_bounds:
  assumes "x \<noteq> 0"
  shows "2 powi \<lfloor>log 2 \<bar>x\<bar>\<rfloor> \<le> \<bar>x\<bar>" and "\<bar>x\<bar> < 2 powi (\<lfloor>log 2 \<bar>x\<bar>\<rfloor> + 1)"
proof -
  let ?k = "\<lfloor>log 2 \<bar>x\<bar>\<rfloor>"
  have x: "0 < \<bar>x\<bar>" using assms by simp
  have a: "(2::real) powr real_of_int ?k = 2 powi ?k"
    by (simp add: powr_real_of_int')
  have b: "(2::real) powr real_of_int (?k + 1) = 2 powi (?k + 1)"
    by (rule powr_real_of_int') simp_all
  have iff: "(\<lfloor>log 2 \<bar>x\<bar>\<rfloor> = ?k)
      = (2 powr real_of_int ?k \<le> \<bar>x\<bar> \<and> \<bar>x\<bar> < 2 powr real_of_int (?k + 1))"
    by (rule floor_log_eq_powr_iff [OF x]) simp
  have c: "2 powi ?k \<le> \<bar>x\<bar> \<and> \<bar>x\<bar> < 2 powi (?k + 1)"
    using iff unfolding a b by simp
  show "2 powi ?k \<le> \<bar>x\<bar>" using c by (rule conjunct1)
  show "\<bar>x\<bar> < 2 powi (?k + 1)" using c by (rule conjunct2)
qed

lemma powi2_less_imp: "(2::real) powi a < 2 powi b \<Longrightarrow> a < b"
  by (rule ccontr) (simp add: not_less power_int_increasing leD)

lemma fl_rel:
  assumes lo: "2 powi (- 1022) \<le> \<bar>x\<bar>" and hi: "\<bar>x\<bar> \<le> 2 powi 1023"
  shows "\<exists>y. fl x = Fin y \<and> \<bar>y - x\<bar> \<le> 2 powi (- 53) * \<bar>x\<bar>"
proof -
  let ?k = "\<lfloor>log 2 \<bar>x\<bar>\<rfloor>"
  have x0: "x \<noteq> 0" using lo by (smt (verit) zero_less_power_int)
  note b = floor_log2_bounds [OF x0]
  have "(2::real) powi (- 1022) < 2 powi (?k + 1)" using lo b(2) by linarith
  then have k1: "- 1022 \<le> ?k" using powi2_less_imp [of "- 1022" "?k + 1"] by linarith
  have "(2::real) powi ?k < 2 powi 1024"
  proof -
    have "(2::real) powi 1023 < 2 powi 1024" by (rule power_int_strict_increasing) simp_all
    then show ?thesis using b(1) hi by linarith
  qed
  then have k2: "?k \<le> 1023" using powi2_less_imp [of ?k 1024] by linarith
  have e: "fl_exp x = ?k - 52" by (rule fl_exp_normal [OF b k1])
  have half: "(2::real) powi (?k - 52) / 2 = 2 powi (- 53) * 2 powi ?k"
  proof -
    have "(2::real) powi (?k - 52) = 2 powi ?k * 2 powi (- 52)"
      using power_int_add [of "2::real" ?k "- 52"] by simp
    then show ?thesis by (simp add: power_int_minus)
  qed
  have err: "\<bar>rd x - x\<bar> \<le> 2 powi (- 53) * 2 powi ?k"
    using rd_err [of x] unfolding e half .
  have u0: "0 \<le> (2::real) powi (- 53)" by (simp add: power_int_minus)
  have err2: "\<bar>rd x - x\<bar> \<le> 2 powi (- 53) * \<bar>x\<bar>"
    using err mult_left_mono [OF b(1) u0] by linarith
  have "2 powi (- 53) * \<bar>x\<bar> \<le> 2 powi (- 53) * 2 powi 1023"
    by (rule mult_left_mono [OF hi u0])
  then have "\<bar>rd x\<bar> \<le> 2 powi 1023 + 2 powi (- 53) * 2 powi 1023"
    using err2 hi by linarith
  also have "\<dots> < 2 powi 1024"
    by (simp add: power_int_minus)
  finally have "\<not> 2 powi 1024 \<le> \<bar>rd x\<bar>" by simp
  then have "fl x = Fin (rd x)" using x0 by (simp add: fl_def)
  then show ?thesis using err2 by blast
qed

lemma fl_pos:
  assumes "2 powi (- 1022) \<le> x" and "x \<le> 2 powi 1023"
  shows "\<exists>y. fl x = Fin y \<and> x * (1 - 2 powi (- 53)) \<le> y \<and> y \<le> x * (1 + 2 powi (- 53))"
proof -
  have x: "0 < x" using assms(1) by (smt (verit) zero_less_power_int)
  then have ax: "\<bar>x\<bar> = x" by simp
  from fl_rel [of x] assms obtain y where y: "fl x = Fin y" "\<bar>y - x\<bar> \<le> 2 powi (- 53) * x"
    unfolding ax by blast
  define u :: real where "u = 2 powi (- 53)"
  have "\<bar>y - x\<bar> \<le> u * x" using y(2) by (simp only: u_def)
  then have "x - u * x \<le> y" "y \<le> x + u * x" by linarith+
  then have "x * (1 - u) \<le> y" "y \<le> x * (1 + u)" by (simp_all add: algebra_simps)
  then show ?thesis using y(1) unfolding u_def by blast
qed

lemma fl_cases: "x \<noteq> 0 \<Longrightarrow> fl x = Fin (rd x) \<or> (0 < x \<and> fl x = PInf) \<or> (x < 0 \<and> fl x = NInf)"
  by (auto simp: fl_def)

lemma fl_zero: "fl 0 = Fin 0"
  by (simp add: fl_def)

lemma fl_one: "fl 1 = Fin 1"
  by (subst fl_eval [where k = 0]) (simp_all add: power_int_minus rhe_of_int [of 4503599627370496, simplified])

lemma powi_pos: "0 < (2::real) powi e"
  by (simp add: zero_less_power_int)

lemma rd_nonpos:
  assumes "x \<le> 0"
  shows "rd x \<le> 0"
proof -
  have "x / 2 powi fl_exp x \<le> 0"
    using assms powi_pos [of "fl_exp x"] by (simp add: divide_le_0_iff)
  then have "\<lceil>x / 2 powi fl_exp x\<rceil> \<le> 0" by (simp add: ceiling_le_iff)
  then have "rhe (x / 2 powi fl_exp x) \<le> 0"
    using rhe_le_ceil [of "x / 2 powi fl_exp x"] by linarith
  then have "real_of_int (rhe (x / 2 powi fl_exp x)) \<le> 0" by simp
  then show ?thesis
    unfolding rd_def using powi_pos [of "fl_exp x"] by (simp add: mult_le_0_iff)
qed

lemma fl_nonpos:
  assumes "x \<le> 0"
  shows "fl x = NInf \<or> (\<exists>v. fl x = Fin v \<and> v \<le> 0)"
proof (cases "x = 0")
  case True
  then show ?thesis by (simp add: fl_zero)
next
  case False
  then show ?thesis using fl_cases [OF False] rd_nonpos [OF assms] assms by auto
qed

lemma fl_exp_ge:
  assumes "x \<noteq> 0"
  shows "\<lfloor>log 2 \<bar>x\<bar>\<rfloor> - 52 \<le> fl_exp x" and "- 1074 \<le> fl_exp x"
  by (simp_all add: fl_exp_def)

lemma abs_less_exp:
  assumes "x \<noteq> 0"
  shows "\<bar>x\<bar> < 2 powi (fl_exp x + 53)"
proof -
  have "\<lfloor>log 2 \<bar>x\<bar>\<rfloor> + 1 \<le> fl_exp x + 53" using fl_exp_ge(1) [OF assms] by linarith
  then have "(2::real) powi (\<lfloor>log 2 \<bar>x\<bar>\<rfloor> + 1) \<le> 2 powi (fl_exp x + 53)"
    by (intro power_int_increasing) simp_all
  then show ?thesis using floor_log2_bounds(2) [OF assms] by linarith
qed

lemma abs_ge_exp:
  assumes "x \<noteq> 0" and "- 1074 < fl_exp x"
  shows "2 powi (fl_exp x + 52) \<le> \<bar>x\<bar>"
proof -
  have "fl_exp x = \<lfloor>log 2 \<bar>x\<bar>\<rfloor> - 52" using assms(2) by (simp add: fl_exp_def max_def split: if_splits)
  then have "fl_exp x + 52 = \<lfloor>log 2 \<bar>x\<bar>\<rfloor>" by simp
  then show ?thesis using floor_log2_bounds(1) [OF assms(1)] by simp
qed

lemma fl_exp_mono:
  assumes "x \<noteq> 0" and "\<bar>x\<bar> \<le> \<bar>y\<bar>"
  shows "fl_exp x \<le> fl_exp y"
proof -
  have "log 2 \<bar>x\<bar> \<le> log 2 \<bar>y\<bar>" using assms by (simp add: log_le_cancel_iff)
  then have "\<lfloor>log 2 \<bar>x\<bar>\<rfloor> \<le> \<lfloor>log 2 \<bar>y\<bar>\<rfloor>" by (rule floor_mono)
  then show ?thesis by (simp add: fl_exp_def)
qed

lemma powi_split: "(2::real) powi (e + 52) = 4503599627370496 * 2 powi e"
  using power_int_add [of "2::real" e 52] by (simp add: mult.commute)

lemma rd_ge_one:
  assumes "1 \<le> x"
  shows "1 \<le> rd x"
proof -
  have x0: "x \<noteq> 0" and ax: "\<bar>x\<bar> = x" using assms by simp_all
  let ?k = "\<lfloor>log 2 \<bar>x\<bar>\<rfloor>"
  have "(2::real) powi 0 < 2 powi (?k + 1)"
    using floor_log2_bounds(2) [OF x0] assms by simp
  then have k0: "0 \<le> ?k" using powi2_less_imp [of 0 "?k + 1"] by linarith
  then have e: "fl_exp x = ?k - 52" by (simp add: fl_exp_def)
  have "2 powi (fl_exp x + 52) \<le> x"
    using floor_log2_bounds(1) [OF x0] unfolding e ax by simp
  then have "4503599627370496 * 2 powi fl_exp x \<le> x" by (simp only: powi_split)
  then have "4503599627370496 \<le> x / 2 powi fl_exp x"
    using powi_pos [of "fl_exp x"] by (simp add: pos_le_divide_eq)
  then have "4503599627370496 \<le> \<lfloor>x / 2 powi fl_exp x\<rfloor>" by (simp add: le_floor_iff)
  then have "4503599627370496 \<le> rhe (x / 2 powi fl_exp x)"
    using rhe_ge_floor [of "x / 2 powi fl_exp x"] by linarith
  then have "(4503599627370496::real) \<le> of_int (rhe (x / 2 powi fl_exp x))"
    by (simp add: of_int_le_iff [symmetric] del: of_int_le_iff)
  then have "4503599627370496 * 2 powi fl_exp x \<le> rd x"
    unfolding rd_def using powi_pos [of "fl_exp x"] by simp
  then have "2 powi ?k \<le> rd x" using powi_split [of "fl_exp x"] unfolding e by simp
  moreover have "(2::real) powi 0 \<le> 2 powi ?k" using k0 by (intro power_int_increasing) simp_all
  ultimately show ?thesis by simp
qed

lemma fl_ge_one:
  assumes "1 \<le> x"
  shows "fl x = PInf \<or> (\<exists>v. fl x = Fin v \<and> 1 \<le> v)"
proof -
  have "x \<noteq> 0" using assms by simp
  from fl_cases [OF this] rd_ge_one [OF assms] assms show ?thesis by auto
qed

lemma rd_le_double:
  assumes x: "x < 0" and d: "rd x = x" and y: "y \<le> x"
  shows "rd y \<le> x"
proof -
  have x0: "x \<noteq> 0" and y0: "y \<noteq> 0" using x y by simp_all
  have ab: "\<bar>x\<bar> \<le> \<bar>y\<bar>" using x y by simp
  have le: "fl_exp x \<le> fl_exp y" by (rule fl_exp_mono [OF x0 ab])
  show ?thesis
  proof (cases "fl_exp x = fl_exp y")
    case True
    let ?e = "fl_exp y"
    let ?n = "rhe (x / 2 powi ?e)"
    have xn: "x = of_int ?n * 2 powi ?e" using d unfolding rd_def True by simp
    then have "x / 2 powi ?e = of_int ?n" using powi_pos [of ?e] by (simp add: field_simps)
    moreover have "y / 2 powi ?e \<le> x / 2 powi ?e"
      using y powi_pos [of ?e] by (simp add: divide_right_mono)
    ultimately have "y / 2 powi ?e \<le> of_int ?n" by simp
    then have "\<lceil>y / 2 powi ?e\<rceil> \<le> ?n" by (simp add: ceiling_le_iff)
    then have "rhe (y / 2 powi ?e) \<le> ?n" using rhe_le_ceil [of "y / 2 powi ?e"] by linarith
    then have "real_of_int (rhe (y / 2 powi ?e)) \<le> real_of_int ?n" by simp
    then have "rd y \<le> of_int ?n * 2 powi ?e"
      unfolding rd_def using powi_pos [of ?e] by (simp add: mult_right_mono)
    then show ?thesis using xn by simp
  next
    case False
    then have lt: "fl_exp x + 1 \<le> fl_exp y" using le by linarith
    let ?e = "fl_exp y"
    have "- 1074 < ?e" using fl_exp_ge(2) [OF x0] lt by linarith
    from abs_ge_exp [OF y0 this] have "2 powi (?e + 52) \<le> - y" using x y by simp
    then have "4503599627370496 * 2 powi ?e \<le> - y" by (simp only: powi_split)
    then have "y / 2 powi ?e \<le> - 4503599627370496"
      using powi_pos [of ?e] by (simp add: pos_divide_le_eq)
    then have "\<lceil>y / 2 powi ?e\<rceil> \<le> - 4503599627370496" by (simp add: ceiling_le_iff)
    then have "rhe (y / 2 powi ?e) \<le> - 4503599627370496"
      using rhe_le_ceil [of "y / 2 powi ?e"] by linarith
    then have "real_of_int (rhe (y / 2 powi ?e)) \<le> - 4503599627370496"
      by (simp add: of_int_le_iff [symmetric] del: of_int_le_iff)
    from mult_right_mono [OF this, of "2 powi ?e"] powi_pos [of ?e]
    have "rd y \<le> - 4503599627370496 * 2 powi ?e"
      unfolding rd_def by simp
    then have a: "rd y \<le> - (2 powi (?e + 52))" by (simp add: powi_split)
    have "(2::real) powi (fl_exp x + 53) \<le> 2 powi (?e + 52)"
      using lt by (intro power_int_increasing) simp_all
    then have "- x < 2 powi (?e + 52)" using abs_less_exp [OF x0] x by simp
    then show ?thesis using a by linarith
  qed
qed

lemma fl_le_double:
  assumes x: "x < 0" and d: "fl x = Fin x" and y: "y \<le> x"
  shows "fl y = NInf \<or> (\<exists>v. fl y = Fin v \<and> v \<le> x)"
proof -
  have x0: "x \<noteq> 0" and y0: "y \<noteq> 0" using x y by simp_all
  have "rd x = x" using fl_cases [OF x0] d by auto
  from rd_le_double [OF x this y] fl_cases [OF y0] x y show ?thesis by auto
qed

section \<open>The gamma parameters in binary64\<close>

lemma fl_pos_range:
  assumes "a \<le> x" and "x \<le> b" and "2 powi (- 1022) \<le> a" and "b \<le> 2 powi 1023"
  shows "\<exists>y. fl x = Fin y \<and> x * (1 - 2 powi (- 53)) \<le> y \<and> y \<le> x * (1 + 2 powi (- 53))
           \<and> a * (1 - 2 powi (- 53)) \<le> y \<and> y \<le> b * (1 + 2 powi (- 53))"
proof -
  have "2 powi (- 1022) \<le> x" "x \<le> 2 powi 1023" using assms by linarith+
  from fl_pos [OF this] obtain y where y: "fl x = Fin y" "x * (1 - 2 powi (- 53)) \<le> y"
      "y \<le> x * (1 + 2 powi (- 53))" by blast
  define u :: real where "u = 2 powi (- 53)"
  have u: "0 \<le> 1 - u" "0 \<le> 1 + u" by (simp_all add: u_def power_int_minus)
  have "a * (1 - u) \<le> x * (1 - u)" by (rule mult_right_mono [OF assms(1) u(1)])
  moreover have "x * (1 + u) \<le> b * (1 + u)" by (rule mult_right_mono [OF assms(2) u(2)])
  ultimately show ?thesis using y unfolding u_def by (intro exI [of _ y]) simp
qed

lemma negbinom_p_float:
  assumes "1 + 2 powi (- 52) \<le> x" and "x \<le> 2 powi 52"
  shows "\<exists>p. negbinom_p (PyFloat x) = Inr (Fin p) \<and> 5 * 2 powi (- 55) \<le> p
           \<and> p \<le> 1 - 2 powi (- 105)"
proof -
  have x1: "1 + 1 / 4503599627370496 \<le> x" and x2: "x \<le> 4503599627370496"
    using assms by (simp_all add: power_int_minus)
  have x0: "0 < x" using x1 by linarith
  have "\<exists>a. fl (x - 1) = Fin a \<and> (x - 1) * (1 - 2 powi (- 53)) \<le> a
      \<and> a \<le> (x - 1) * (1 + 2 powi (- 53))"
    by (rule fl_pos) (use x1 x2 in \<open>simp_all add: power_int_minus\<close>)
  then obtain a where a: "fl (x - 1) = Fin a"
      "(x - 1) * (1 - 1 / 9007199254740992) \<le> a" "a \<le> (x - 1) * (1 + 1 / 9007199254740992)"
    by (auto simp: power_int_minus)
  have lo: "3 / 4 * (1 / 4503599627370496) * (1 - 1 / 9007199254740992) \<le> a / x"
    using x0 x1 a(2) by (simp add: pos_le_divide_eq)
  have hi: "a / x \<le> (1 - 1 / 4503599627370496) * (1 + 1 / 9007199254740992)"
    using x0 x2 a(3) by (simp add: pos_divide_le_eq)
  have "\<exists>p. fl (a / x) = Fin p \<and> a / x * (1 - 2 powi (- 53)) \<le> p
      \<and> p \<le> a / x * (1 + 2 powi (- 53))
      \<and> 3 / 4 * (1 / 4503599627370496) * (1 - 1 / 9007199254740992) * (1 - 2 powi (- 53)) \<le> p
      \<and> p \<le> (1 - 1 / 4503599627370496) * (1 + 1 / 9007199254740992) * (1 + 2 powi (- 53))"
    by (rule fl_pos_range [OF lo hi]) (simp_all add: power_int_minus)
  then obtain p where p: "fl (a / x) = Fin p" "5 * 2 powi (- 55) \<le> p" "p \<le> 1 - 2 powi (- 105)"
    by (auto simp: power_int_minus)
  have "negbinom_p (PyFloat x) = Inr (Fin p)"
    using x0 a(1) p(1) by (simp add: py_float_truediv_def)
  then show ?thesis using p(2,3) by blast
qed

lemma negbinom_p_int:
  assumes "2 \<le> s" and "s \<le> 2 ^ 52"
  shows "\<exists>p. negbinom_p (PyInt s) = Inr (Fin p) \<and> 5 * 2 powi (- 55) \<le> p
           \<and> p \<le> 1 - 2 powi (- 105)"
proof -
  define x :: real where "x = of_int s"
  have x1: "2 \<le> x" and x2: "x \<le> 4503599627370496"
    using assms unfolding x_def by (simp_all add: of_int_le_iff [symmetric] del: of_int_le_iff)
  have x0: "0 < x" using x1 by linarith
  have lo: "1 / 2 \<le> (x - 1) / x" using x0 x1 by (simp add: pos_le_divide_eq)
  have hi: "(x - 1) / x \<le> 1 - 1 / 4503599627370496"
    using x0 x2 by (simp add: pos_divide_le_eq algebra_simps)
  have "\<exists>p. fl ((x - 1) / x) = Fin p \<and> (x - 1) / x * (1 - 2 powi (- 53)) \<le> p
      \<and> p \<le> (x - 1) / x * (1 + 2 powi (- 53))
      \<and> 1 / 2 * (1 - 2 powi (- 53)) \<le> p
      \<and> p \<le> (1 - 1 / 4503599627370496) * (1 + 2 powi (- 53))"
    by (rule fl_pos_range [OF lo hi]) (simp_all add: power_int_minus)
  then obtain p where p: "fl ((x - 1) / x) = Fin p" "5 * 2 powi (- 55) \<le> p"
      "p \<le> 1 - 2 powi (- 105)"
    by (auto simp: power_int_minus)
  have "negbinom_p (PyInt s) = Inr (Fin p)"
    using assms(1) p(1) by (simp add: x_def)
  then show ?thesis using p(2,3) by blast
qed

lemma one_minus_bounds:
  assumes "5 * 2 powi (- 55) \<le> p" and "p \<le> 1 - 2 powi (- 105)"
  shows "\<exists>q. one_minus (Fin p) = Fin q \<and> 2 powi (- 106) \<le> q \<and> q \<le> 1 - 2 powi (- 55)"
proof -
  have lo: "1 / 40564819207303340847894502572032 \<le> 1 - p"
    and hi: "1 - p \<le> 1 - 5 / 36028797018963968"
    using assms by (simp_all add: power_int_minus)
  have "\<exists>q. fl (1 - p) = Fin q \<and> (1 - p) * (1 - 2 powi (- 53)) \<le> q
      \<and> q \<le> (1 - p) * (1 + 2 powi (- 53))
      \<and> 1 / 40564819207303340847894502572032 * (1 - 2 powi (- 53)) \<le> q
      \<and> q \<le> (1 - 5 / 36028797018963968) * (1 + 2 powi (- 53))"
    by (rule fl_pos_range [OF lo hi]) (simp_all add: power_int_minus)
  then obtain q where "fl (1 - p) = Fin q" "2 powi (- 106) \<le> q" "q \<le> 1 - 2 powi (- 55)"
    by (auto simp: power_int_minus)
  then show ?thesis by (auto simp: one_minus_def)
qed

lemma scale_param:
  assumes "5 * 2 powi (- 55) \<le> p" and "p \<le> 1 - 2 powi (- 105)"
    and "2 powi (- 106) \<le> q" and "q \<le> 1 - 2 powi (- 55)"
  shows "\<exists>s. py_float_truediv (Fin p) (Fin q) = Inr (Fin s) \<and> 0 < s
           \<and> p / q * (1 - 2 powi (- 53)) \<le> s \<and> s \<le> p / q * (1 + 2 powi (- 53))"
proof -
  have p: "5 / 36028797018963968 \<le> p" "p \<le> 1"
    and q: "1 / 81129638414606681695789005144064 \<le> q" "q \<le> 1"
    using assms by (simp_all add: power_int_minus)
  have q0: "0 < q" using q(1) by linarith
  have lo: "5 / 36028797018963968 \<le> p / q"
    using q0 p q by (simp add: pos_le_divide_eq)
  have hi: "p / q \<le> 81129638414606681695789005144064"
    using q0 p q by (simp add: pos_divide_le_eq)
  have "\<exists>s. fl (p / q) = Fin s \<and> p / q * (1 - 2 powi (- 53)) \<le> s
      \<and> s \<le> p / q * (1 + 2 powi (- 53))
      \<and> 5 / 36028797018963968 * (1 - 2 powi (- 53)) \<le> s
      \<and> s \<le> 81129638414606681695789005144064 * (1 + 2 powi (- 53))"
    by (rule fl_pos_range [OF lo hi]) (simp_all add: power_int_minus)
  then obtain s where s: "fl (p / q) = Fin s" "p / q * (1 - 2 powi (- 53)) \<le> s"
      "s \<le> p / q * (1 + 2 powi (- 53))" "0 < s"
    by (auto simp: power_int_minus)
  have "py_float_truediv (Fin p) (Fin q) = Inr (Fin s)"
    using q0 s(1) by (simp add: py_float_truediv_def)
  then show ?thesis using s(2,3,4) by blast
qed

lemma shape_param:
  assumes "5 * 2 powi (- 55) \<le> p" and "p \<le> 1 - 2 powi (- 105)"
    and "2 powi (- 106) \<le> q" and "q \<le> 1 - 2 powi (- 55)"
    and "2 powi (- 900) \<le> m" and "m \<le> 2 powi 900"
  shows "\<exists>sh. rnd (np_div (rnd (np_mul (Fin m) (Fin q))) (Fin p)) = Fin sh \<and> 0 < sh
           \<and> m * q / p * (1 - 2 powi (- 53)) * (1 - 2 powi (- 53)) \<le> sh
           \<and> sh \<le> m * q / p * (1 + 2 powi (- 53)) * (1 + 2 powi (- 53))"
proof -
  define u :: real where "u = 2 powi (- 53)"
  have u: "0 \<le> 1 - u" "0 \<le> 1 + u" by (simp_all add: u_def power_int_minus)
  have p: "5 / 36028797018963968 \<le> p" "p \<le> 1"
    and q: "1 / 81129638414606681695789005144064 \<le> q" "q \<le> 1"
    using assms(1-4) by (simp_all add: power_int_minus)
  have p0: "0 < p" and q0: "0 < q" using p(1) q(1) by linarith+
  have m0: "0 < m" using assms(5) by (smt (verit) zero_less_power_int)
  have lo: "2 powi (- 900) * (1 / 81129638414606681695789005144064) \<le> m * q"
    by (rule mult_mono [OF assms(5) q(1)]) (use m0 in simp_all)
  have hi: "m * q \<le> 2 powi 900 * 1"
    by (rule mult_mono [OF assms(6) q(2)]) (use q0 in simp_all)
  have "\<exists>t. fl (m * q) = Fin t \<and> m * q * (1 - 2 powi (- 53)) \<le> t
      \<and> t \<le> m * q * (1 + 2 powi (- 53))
      \<and> 2 powi (- 900) * (1 / 81129638414606681695789005144064) * (1 - 2 powi (- 53)) \<le> t
      \<and> t \<le> 2 powi 900 * 1 * (1 + 2 powi (- 53))"
    by (rule fl_pos_range [OF lo hi]) (simp_all add: power_int_minus)
  then obtain t where t: "fl (m * q) = Fin t" "m * q * (1 - u) \<le> t" "t \<le> m * q * (1 + u)"
      "2 powi (- 1007) \<le> t" "t \<le> 2 powi 901"
    unfolding u_def by (auto simp: power_int_minus)
  have lo2: "2 powi (- 1007) \<le> t / p"
  proof -
    have "t \<le> t / p" using p0 p(2) t(4)
      by (smt (verit) divide_le_eq_1_pos mult_left_le pos_le_divide_eq zero_less_power_int)
    then show ?thesis using t(4) by linarith
  qed
  have hi2: "t / p \<le> 2 powi 954"
  proof -
    have "t \<le> 2 powi 954 * (5 / 36028797018963968)" using t(5) by (simp add: power_int_minus)
    also have "\<dots> \<le> 2 powi 954 * p" by (rule mult_left_mono [OF p(1)]) simp
    finally show ?thesis using p0 by (simp add: pos_divide_le_eq)
  qed
  have "\<exists>sh. fl (t / p) = Fin sh \<and> t / p * (1 - 2 powi (- 53)) \<le> sh
      \<and> sh \<le> t / p * (1 + 2 powi (- 53))
      \<and> 2 powi (- 1007) * (1 - 2 powi (- 53)) \<le> sh
      \<and> sh \<le> 2 powi 954 * (1 + 2 powi (- 53))"
    by (rule fl_pos_range [OF lo2 hi2]) (simp_all add: power_int_minus)
  then obtain sh where sh: "fl (t / p) = Fin sh" "t / p * (1 - u) \<le> sh"
      "sh \<le> t / p * (1 + u)" "0 < sh"
    unfolding u_def by (auto simp: power_int_minus)
  have a: "m * q / p * (1 - u) \<le> t / p"
    using divide_right_mono [OF t(2), of p] p0 by simp
  have b: "t / p \<le> m * q / p * (1 + u)"
    using divide_right_mono [OF t(3), of p] p0 by simp
  have "m * q / p * (1 - u) * (1 - u) \<le> t / p * (1 - u)"
    by (rule mult_right_mono [OF a u(1)])
  moreover have "t / p * (1 + u) \<le> m * q / p * (1 + u) * (1 + u)"
    by (rule mult_right_mono [OF b u(2)])
  ultimately have c: "m * q / p * (1 - u) * (1 - u) \<le> sh" "sh \<le> m * q / p * (1 + u) * (1 + u)"
    using sh(2,3) by linarith+
  have "rnd (np_div (rnd (np_mul (Fin m) (Fin q))) (Fin p)) = Fin sh"
    using p0 t(1) sh(1) by simp
  then show ?thesis using sh(4) c unfolding u_def by blast
qed

lemma double_above_one:
  assumes d: "fl x = Fin x" and x: "1 < x"
  shows "1 + 2 powi (- 52) \<le> x"
proof (rule ccontr)
  assume "\<not> 1 + 2 powi (- 52) \<le> x"
  then have x2: "x < 1 + 1 / 4503599627370496" by (simp add: power_int_minus)
  have "fl x = Fin (of_int (rhe (x / 2 powi (0 - 52))) * 2 powi (0 - 52))"
    by (rule fl_eval) (use x x2 in simp_all)
  then have "x = of_int (rhe (x * 4503599627370496)) / 4503599627370496"
    using d by (simp add: power_int_minus)
  then have "x * 4503599627370496 = of_int (rhe (x * 4503599627370496))" by simp
  moreover define n where "n = rhe (x * 4503599627370496)"
  ultimately have n: "x * 4503599627370496 = of_int n" by simp
  have "(4503599627370496::real) < of_int n" "of_int n < (4503599627370497::real)"
    using x x2 unfolding n [symmetric] by simp_all
  then have "4503599627370496 < n" "n < 4503599627370497"
    by (simp_all add: of_int_less_iff [symmetric] del: of_int_less_iff)
  then show False by linarith
qed

lemma negbinom_p_bounds:
  assumes "is_pynum scale" and "1 < py_real scale" and "py_real scale \<le> 2 powi 52"
  shows "\<exists>p. negbinom_p scale = Inr (Fin p) \<and> 5 * 2 powi (- 55) \<le> p
           \<and> p \<le> 1 - 2 powi (- 105)"
proof (cases scale)
  case (PyInt s)
  have "1 < s" using assms(2) PyInt by simp
  then have s1: "2 \<le> s" by simp
  have "real_of_int s \<le> real_of_int (2 ^ 52)" using assms(3) PyInt by simp
  then have "s \<le> 2 ^ 52" by (simp only: of_int_le_iff)
  from negbinom_p_int [OF s1 this] show ?thesis unfolding PyInt .
next
  case (PyFloat x)
  have "1 + 2 powi (- 52) \<le> x"
    by (rule double_above_one) (use assms(1,2) PyFloat in simp_all)
  moreover have "x \<le> 2 powi 52" using assms(3) PyFloat by simp
  ultimately show ?thesis unfolding PyFloat by (rule negbinom_p_float)
qed

lemma gamma_mean_bound:
  fixes p q m sh s :: real
  assumes p: "0 < p" and q: "0 < q" and m: "0 < m"
    and sh1: "m * q / p * (1 - 2 powi (- 53)) * (1 - 2 powi (- 53)) \<le> sh"
    and sh2: "sh \<le> m * q / p * (1 + 2 powi (- 53)) * (1 + 2 powi (- 53))"
    and s1: "p / q * (1 - 2 powi (- 53)) \<le> s"
    and s2: "s \<le> p / q * (1 + 2 powi (- 53))"
  shows "\<bar>sh * s - m\<bar> \<le> 2 powi (- 51) * m"
proof -
  define u :: real where "u = 2 powi (- 53)"
  have u: "0 \<le> 1 - u" "0 \<le> 1 + u" by (simp_all add: u_def power_int_minus)
  define A where "A = m * q / p"
  define B where "B = p / q"
  have A: "0 < A" unfolding A_def by (rule divide_pos_pos [OF mult_pos_pos [OF m q] p])
  have B: "0 < B" unfolding B_def by (rule divide_pos_pos [OF p q])
  have AB: "A * B = m" using p q by (simp add: A_def B_def)
  have l1: "0 \<le> A * (1 - u) * (1 - u)" and l2: "0 \<le> B * (1 - u)"
    using A B u by simp_all
  have sh0: "0 \<le> sh" using l1 sh1 unfolding A_def u_def by linarith
  have lo: "A * (1 - u) * (1 - u) * (B * (1 - u)) \<le> sh * s"
    by (rule mult_mono [OF sh1 [folded A_def u_def] s1 [folded B_def u_def] sh0 l2])
  have h2: "0 \<le> A * (1 + u) * (1 + u)" using A u by simp
  have s0: "0 \<le> s" using l2 s1 unfolding B_def u_def by linarith
  have hi: "sh * s \<le> A * (1 + u) * (1 + u) * (B * (1 + u))"
    by (rule mult_mono [OF sh2 [folded A_def u_def] s2 [folded B_def u_def] h2 s0])
  have e1: "A * (1 - u) * (1 - u) * (B * (1 - u)) = m * ((1 - u) * (1 - u) * (1 - u))"
    unfolding AB [symmetric] by (simp add: algebra_simps)
  have e2: "A * (1 + u) * (1 + u) * (B * (1 + u)) = m * ((1 + u) * (1 + u) * (1 + u))"
    unfolding AB [symmetric] by (simp add: algebra_simps)
  define v :: real where "v = 2 powi (- 51)"
  have c1: "1 - v \<le> (1 - u) * (1 - u) * (1 - u)"
    by (simp add: u_def v_def power_int_minus)
  have c2: "(1 + u) * (1 + u) * (1 + u) \<le> 1 + v"
    by (simp add: u_def v_def power_int_minus)
  have "m * (1 - v) \<le> sh * s"
    using lo mult_left_mono [OF c1, of m] m unfolding e1 by linarith
  then have a: "m - v * m \<le> sh * s" by (simp add: algebra_simps)
  have "sh * s \<le> m * (1 + v)"
    using hi mult_left_mono [OF c2, of m] m unfolding e2 by linarith
  then have b: "sh * s \<le> m + v * m" by (simp add: algebra_simps)
  have "\<bar>sh * s - m\<bar> \<le> v * m" using a b by linarith
  then show ?thesis unfolding v_def .
qed

lemma map_Fin_ex:
  assumes "\<forall>x \<in> set xs. \<exists>y. g x = Fin y \<and> P x y"
  shows "\<exists>ys. map g xs = map Fin ys \<and> length ys = length xs
           \<and> (\<forall>i < length xs. P (xs ! i) (ys ! i))"
  using assms
proof (induction xs)
  case Nil
  then show ?case by simp
next
  case (Cons x xs)
  then obtain ys where ys: "map g xs = map Fin ys" "length ys = length xs"
      "\<forall>i < length xs. P (xs ! i) (ys ! i)"
    by auto
  from Cons.prems obtain y where y: "g x = Fin y" "P x y" by auto
  have "\<forall>i < length (x # xs). P ((x # xs) ! i) ((y # ys) ! i)"
    using y(2) ys(3) by (auto simp: nth_Cons')
  then show ?case using y(1) ys(1,2) by (intro exI [of _ "y # ys"]) simp
qed

lemma negbinom_params64_ok:
  assumes sc: "is_pynum scale" "1 < py_real scale" "py_real scale \<le> 2 powi 52"
    and mu: "\<forall>m \<in> set mu. 2 powi (- 900) \<le> m \<and> m \<le> 2 powi 900"
  shows "\<exists>p q shape s.
           negbinom_p scale = Inr (Fin p) \<and> 0 < p \<and> p < 1
         \<and> one_minus (Fin p) = Fin q \<and> 0 < q \<and> q < 1
         \<and> negbinom_params64 (map Fin mu) scale = Inr (map Fin shape, Fin s)
         \<and> 0 < s \<and> length shape = length mu
         \<and> (\<forall>i < length mu. 0 < shape ! i
               \<and> \<bar>shape ! i * s - mu ! i\<bar> \<le> 2 powi (- 51) * mu ! i)"
proof -
  from negbinom_p_bounds [OF sc] obtain p where p: "negbinom_p scale = Inr (Fin p)"
      "5 * 2 powi (- 55) \<le> p" "p \<le> 1 - 2 powi (- 105)" by blast
  from one_minus_bounds [OF p(2,3)] obtain q where q: "one_minus (Fin p) = Fin q"
      "2 powi (- 106) \<le> q" "q \<le> 1 - 2 powi (- 55)" by blast
  from scale_param [OF p(2,3) q(2,3)] obtain s
    where s: "py_float_truediv (Fin p) (Fin q) = Inr (Fin s)" "0 < s"
      "p / q * (1 - 2 powi (- 53)) \<le> s" "s \<le> p / q * (1 + 2 powi (- 53))" by blast
  have p0: "0 < p" "p < 1" using p(2,3) by (simp_all add: power_int_minus)
  have q0: "0 < q" "q < 1" using q(2,3) by (simp_all add: power_int_minus)
  let ?g = "\<lambda>mu_i. rnd (np_div (rnd (np_mul mu_i (Fin q))) (Fin p))"
  let ?P = "\<lambda>a sh. 0 < sh \<and> \<bar>sh * s - a\<bar> \<le> 2 powi (- 51) * a"
  have "\<forall>m \<in> set mu. \<exists>sh. (?g \<circ> Fin) m = Fin sh \<and> ?P m sh"
  proof
    fix m assume "m \<in> set mu"
    then have m: "2 powi (- 900) \<le> m" "m \<le> 2 powi 900" using mu by auto
    then have m0: "0 < m" by (smt (verit) zero_less_power_int)
    from shape_param [OF p(2,3) q(2,3) m] obtain sh
      where sh: "?g (Fin m) = Fin sh" "0 < sh"
        "m * q / p * (1 - 2 powi (- 53)) * (1 - 2 powi (- 53)) \<le> sh"
        "sh \<le> m * q / p * (1 + 2 powi (- 53)) * (1 + 2 powi (- 53))" by blast
    have "\<bar>sh * s - m\<bar> \<le> 2 powi (- 51) * m"
      by (rule gamma_mean_bound [OF p0(1) q0(1) m0 sh(3,4) s(3,4)])
    then show "\<exists>sh. (?g \<circ> Fin) m = Fin sh \<and> ?P m sh" using sh(1,2) by auto
  qed
  from map_Fin_ex [OF this] obtain shape
    where shape: "map (?g \<circ> Fin) mu = map Fin shape" "length shape = length mu"
      "\<forall>i < length mu. ?P (mu ! i) (shape ! i)" by blast
  have "negbinom_params64 (map Fin mu) scale = Inr (map Fin shape, Fin s)"
    using p(1) q(1) s(1) shape(1) by (simp add: negbinom_params64_def)
  then show ?thesis using p(1) p0 q(1) q0 s(2) shape(2,3) by blast
qed

lemma scale_param_nonpos:
  assumes "p = NInf \<or> (\<exists>v. p = Fin v \<and> v \<le> 0)"
  shows "\<exists>s. py_float_truediv p (one_minus p) = Inr s \<and> \<not> (\<exists>v. s = Fin v \<and> 0 < v)"
  using assms
proof
  assume "p = NInf"
  then show ?thesis by (simp add: one_minus_def py_float_truediv_def)
next
  assume "\<exists>v. p = Fin v \<and> v \<le> 0"
  then obtain v where p: "p = Fin v" and v: "v \<le> 0" by blast
  have q: "one_minus (Fin v) = fl (1 - v)" by (simp add: one_minus_def)
  from fl_ge_one [of "1 - v"] v
  consider "fl (1 - v) = PInf" | w where "fl (1 - v) = Fin w" "1 \<le> w" by auto
  then show ?thesis
  proof cases
    case 1
    then show ?thesis by (simp add: q p py_float_truediv_def fl_zero)
  next
    case 2
    have "v / w \<le> 0" using v 2(2) by (simp add: divide_le_0_iff)
    from fl_nonpos [OF this] have "\<not> (\<exists>z. fl (v / w) = Fin z \<and> 0 < z)" by auto
    then show ?thesis using 2 by (simp add: q p py_float_truediv_def)
  qed
qed

lemma scale_param_ge_one:
  assumes "p = PInf \<or> (\<exists>v. p = Fin v \<and> 1 \<le> v)"
  shows "py_float_truediv p (one_minus p) = Inl ZeroDivisionError
       \<or> (\<exists>s. py_float_truediv p (one_minus p) = Inr s \<and> \<not> (\<exists>v. s = Fin v \<and> 0 < v))"
  using assms
proof
  assume "p = PInf"
  then show ?thesis by (simp add: one_minus_def py_float_truediv_def)
next
  assume "\<exists>v. p = Fin v \<and> 1 \<le> v"
  then obtain v where p: "p = Fin v" and v: "1 \<le> v" by blast
  have q: "one_minus (Fin v) = fl (1 - v)" by (simp add: one_minus_def)
  from fl_nonpos [of "1 - v"] v
  consider "fl (1 - v) = NInf" | w where "fl (1 - v) = Fin w" "w \<le> 0" by auto
  then show ?thesis
  proof cases
    case 1
    then show ?thesis by (simp add: q p py_float_truediv_def fl_zero)
  next
    case 2
    show ?thesis
    proof (cases "w = 0")
      case True
      then show ?thesis using 2 by (simp add: q p py_float_truediv_def)
    next
      case False
      have "v / w \<le> 0" using v 2(2) by (simp add: divide_le_0_iff)
      from fl_nonpos [OF this] have "\<not> (\<exists>z. fl (v / w) = Fin z \<and> 0 < z)" by auto
      then show ?thesis using 2 False by (simp add: q p py_float_truediv_def)
    qed
  qed
qed

lemma negbinom_params64_of_p:
  assumes "negbinom_p scale = Inr p"
  shows "py_float_truediv p (one_minus p) = Inl e \<Longrightarrow> negbinom_params64 mu scale = Inl e"
    and "py_float_truediv p (one_minus p) = Inr s \<Longrightarrow>
      negbinom_params64 mu scale
        = Inr (map (\<lambda>mu_i. rnd (np_div (rnd (np_mul mu_i (one_minus p))) p)) mu, s)"
  using assms by (simp_all add: negbinom_params64_def)

lemma negbinom_p_le_one:
  assumes "is_pynum scale" and "py_real scale \<le> 1"
  shows "negbinom_p scale = Inl ZeroDivisionError
       \<or> (\<exists>p. negbinom_p scale = Inr p
             \<and> ((p = NInf \<or> (\<exists>v. p = Fin v \<and> v \<le> 0)) \<or> (p = PInf \<or> (\<exists>v. p = Fin v \<and> 1 \<le> v))))"
proof (cases scale)
  case (PyInt s)
  have s: "s \<le> 1" using assms(2) PyInt by simp
  show ?thesis
  proof (cases "s = 0")
    case True
    then show ?thesis by (simp add: PyInt)
  next
    case False
    let ?x = "real_of_int (s - 1) / real_of_int s"
    have p: "negbinom_p scale = Inr (fl ?x)" using False by (simp add: PyInt)
    show ?thesis
    proof (cases "s = 1")
      case True
      then show ?thesis using p by (simp add: fl_zero)
    next
      case False
      then have neg: "s < 0" using s \<open>s \<noteq> 0\<close> by linarith
      then have r: "real_of_int s < 0" by simp
      have "?x = 1 - 1 / real_of_int s" using r by (simp add: field_simps)
      moreover have "1 / real_of_int s < 0" using r by simp
      ultimately have "1 \<le> ?x" by linarith
      from fl_ge_one [OF this] show ?thesis using p by auto
    qed
  qed
next
  case (PyFloat x)
  have d: "fl x = Fin x" and x: "x \<le> 1" using assms PyFloat by simp_all
  consider "x = 0" | "0 < x" | "x < 0" by linarith
  then show ?thesis
  proof cases
    case 1
    then show ?thesis by (simp add: PyFloat py_float_truediv_def)
  next
    case 2
    have "x - 1 \<le> 0" using x by simp
    from fl_nonpos [OF this]
    consider "fl (x - 1) = NInf" | a where "fl (x - 1) = Fin a" "a \<le> 0" by auto
    then show ?thesis
    proof cases
      case 1
      then show ?thesis using 2 by (simp add: PyFloat py_float_truediv_def)
    next
      case 2
      have "a / x \<le> 0" using 2(2) \<open>0 < x\<close> by (simp add: divide_le_0_iff)
      from fl_nonpos [OF this] show ?thesis
        using 2(1) \<open>0 < x\<close> by (auto simp: PyFloat py_float_truediv_def)
    qed
  next
    case 3
    have "x - 1 \<le> x" by simp
    from fl_le_double [OF 3 d this]
    consider "fl (x - 1) = NInf" | a where "fl (x - 1) = Fin a" "a \<le> x" by auto
    then show ?thesis
    proof cases
      case 1
      then show ?thesis using 3 by (simp add: PyFloat py_float_truediv_def)
    next
      case 2
      have "1 \<le> a / x" using 2(2) 3 by (simp add: le_divide_eq)
      from fl_ge_one [OF this] show ?thesis
        using 2(1) 3 by (auto simp: PyFloat py_float_truediv_def)
    qed
  qed
qed

lemma negbinom_params64_le_one:
  assumes "is_pynum scale" and "py_real scale \<le> 1"
  shows "negbinom_params64 mu scale = Inl ZeroDivisionError
       \<or> (\<exists>shape s. negbinom_params64 mu scale = Inr (shape, s)
             \<and> \<not> (\<exists>v. s = Fin v \<and> 0 < v))"
proof -
  from negbinom_p_le_one [OF assms]
  consider "negbinom_p scale = Inl ZeroDivisionError"
    | p where "negbinom_p scale = Inr p" "p = NInf \<or> (\<exists>v. p = Fin v \<and> v \<le> 0)"
    | p where "negbinom_p scale = Inr p" "p = PInf \<or> (\<exists>v. p = Fin v \<and> 1 \<le> v)"
    by blast
  then show ?thesis
  proof cases
    case 1
    then show ?thesis by (simp add: negbinom_params64_def)
  next
    case 2
    from scale_param_nonpos [OF 2(2)] obtain s
      where s: "py_float_truediv p (one_minus p) = Inr s" "\<not> (\<exists>v. s = Fin v \<and> 0 < v)" by blast
    show ?thesis using negbinom_params64_of_p(2) [OF 2(1) s(1), of mu] s(2) by blast
  next
    case 3
    from scale_param_ge_one [OF 3(2)] show ?thesis
    proof
      assume "py_float_truediv p (one_minus p) = Inl ZeroDivisionError"
      from negbinom_params64_of_p(1) [OF 3(1) this] show ?thesis by blast
    next
      assume "\<exists>s. py_float_truediv p (one_minus p) = Inr s \<and> \<not> (\<exists>v. s = Fin v \<and> 0 < v)"
      then obtain s where s: "py_float_truediv p (one_minus p) = Inr s"
          "\<not> (\<exists>v. s = Fin v \<and> 0 < v)" by blast
      show ?thesis using negbinom_params64_of_p(2) [OF 3(1) s(1), of mu] s(2) by blast
    qed
  qed
qed

subsection \<open>The parameters at particular scales\<close>

lemma fl_ten: "fl 10 = Fin 10"
  by (subst fl_eval [where k = 3]) (simp_all add: power_int_minus rhe_def Let_def)

lemma fl_1e17: "fl 100000000000000000 = Fin 100000000000000000"
  by (subst fl_eval [where k = 56]) (simp_all add: power_int_minus rhe_def Let_def)

lemma fl_1e17_minus_1: "fl (100000000000000000 - 1) = Fin 100000000000000000"
  by (subst fl_eval [where k = 56]) (simp_all add: power_int_minus rhe_def Let_def)

lemma negbinom_p_1e17: "negbinom_p (PyFloat 100000000000000000) = Inr (Fin 1)"
  using fl_1e17_minus_1 by (simp add: py_float_truediv_def fl_one)

lemma negbinom_p_int_1e17: "negbinom_p (PyInt 100000000000000000) = Inr (Fin 1)"
proof -
  have "fl (99999999999999999 / 100000000000000000) = Fin 1"
    by (subst fl_eval [where k = "-1"]) (simp_all add: power_int_minus rhe_def Let_def)
  then show ?thesis by simp
qed

lemma one_minus_one: "one_minus (Fin 1) = Fin 0"
  by (simp add: one_minus_def fl_zero)

lemma one_minus_zero: "one_minus (Fin 0) = Fin 1"
  by (simp add: one_minus_def fl_one)

lemma negbinom_params64_p_one:
  assumes "negbinom_p scale = Inr (Fin 1)"
  shows "negbinom_params64 mu scale = Inl ZeroDivisionError"
  using assms by (simp add: negbinom_params64_def one_minus_one py_float_truediv_def)







lemma negbinom64_reaches_gamma:
  assumes "negbinom_params64 mu scale = Inr (shape, s)"
  shows "negbinom64 gam L u mu scale w =
     io_bind (gam shape s (length u))
       (\<lambda>x. io_lift (np_broadcast2 (poisson_ppf L) u x)) w"
  using assms by (simp add: negbinom64_def io_bind_def io_lift_def)

lemma negbinom64_raises:
  assumes "negbinom_params64 mu scale = Inl e"
  shows "negbinom64 gam L u mu scale w = Inl e"
  using assms by (simp add: negbinom64_def io_bind_def io_lift_def)

lemma negbinom_p_zero:
  assumes "py_real scale = 0"
  shows "negbinom_p scale = Inl ZeroDivisionError"
  using assms by (cases scale) (simp_all add: py_float_truediv_def)

lemma negbinom_p_one:
  assumes "py_real scale = 1"
  shows "negbinom_p scale = Inr (Fin 0)"
  using assms by (cases scale) (simp_all add: py_float_truediv_def fl_zero)

lemma shape_at_zero:
  assumes "2 powi (- 900) \<le> m" and "m \<le> 2 powi 900"
  shows "rnd (np_div (rnd (np_mul (Fin m) (Fin 1))) (Fin 0)) = PInf"
proof -
  have "\<exists>y. fl m = Fin y \<and> m * (1 - 2 powi (- 53)) \<le> y \<and> y \<le> m * (1 + 2 powi (- 53))
      \<and> 2 powi (- 900) * (1 - 2 powi (- 53)) \<le> y \<and> y \<le> 2 powi 900 * (1 + 2 powi (- 53))"
    by (rule fl_pos_range [OF assms]) (simp_all add: power_int_minus)
  then obtain y where "fl m = Fin y" "0 < y" by (auto simp: power_int_minus)
  then show ?thesis by simp
qed

lemma negbinom_params64_one:
  assumes "py_real scale = 1" and "\<forall>m \<in> set mu. 2 powi (- 900) \<le> m \<and> m \<le> 2 powi 900"
  shows "negbinom_params64 (map Fin mu) scale = Inr (replicate (length mu) PInf, Fin 0)"
proof -
  have "map (\<lambda>mu_i. rnd (np_div (rnd (np_mul mu_i (Fin 1))) (Fin 0))) (map Fin mu)
      = replicate (length mu) PInf"
    using assms(2) by (intro nth_equalityI) (simp_all add: shape_at_zero del: rnd.simps np_div.simps np_mul.simps)
  then show ?thesis
    by (simp add: negbinom_params64_def negbinom_p_one [OF assms(1)] one_minus_zero
        py_float_truediv_def fl_zero del: rnd.simps np_div.simps np_mul.simps) (simp add: fl_zero)
qed

lemma negbinom_params_same_branch:
  assumes "is_pynum scale" and "1 \<le> py_real scale" and "py_real scale \<le> 2 powi 52"
  shows "(\<exists>r s. negbinom_params mu (py_real scale) = Inr (r, s))
       \<and> (\<exists>r s. negbinom_params64 mu scale = Inr (r, s))"
proof
  have "py_real scale \<noteq> 0" using assms(2) by simp
  from negbinom_params_eq [OF this, of mu]
  show "\<exists>r s. negbinom_params mu (py_real scale) = Inr (r, s)" by blast
next
  show "\<exists>r s. negbinom_params64 mu scale = Inr (r, s)"
  proof (cases "py_real scale = 1")
    case True
    show ?thesis
      by (simp add: negbinom_params64_def negbinom_p_one [OF True] one_minus_zero
          py_float_truediv_def)
  next
    case False
    then have gt: "1 < py_real scale" using assms(2) by simp
    from negbinom_p_bounds [OF assms(1) gt assms(3)] obtain p
      where p: "negbinom_p scale = Inr (Fin p)"
        "5 * 2 powi (- 55) \<le> p" "p \<le> 1 - 2 powi (- 105)" by blast
    from one_minus_bounds [OF p(2,3)] obtain q where q: "one_minus (Fin p) = Fin q"
        "2 powi (- 106) \<le> q" "q \<le> 1 - 2 powi (- 55)" by blast
    from scale_param [OF p(2,3) q(2,3)] obtain s
      where s: "py_float_truediv (Fin p) (Fin q) = Inr (Fin s)" by blast
    show ?thesis by (simp add: negbinom_params64_def p(1) q(1) s)
  qed
qed

lemma fl_half: "fl (1/2) = Fin (1/2)"
  by (subst fl_eval [where k = "-1"]) (simp_all add: power_int_minus rhe_def Let_def)




text \<open>
  Claim C5. In binary64 the precondition \<open>scale > 1\<close> does not keep the divisors away from
  zero: at \<open>scale = 1e17\<close> the float \<open>p\<close> is \<open>1.0\<close>, \<open>1 - p\<close> is \<open>0.0\<close> and line 48
  raises \<^verbatim>\<open>ZeroDivisionError\<close> (\<open>negbinom_precondition_fails\<close> below). What holds, for
  a Python number \<open>scale\<close>: if \<open>1 < scale \<le> 2^52\<close> then \<open>scale\<close> is not zero, \<open>p\<close>
  and \<open>1 - p\<close> lie strictly between 0 and 1, so no division is by zero, the gamma scale
  parameter is a positive number and so is every shape (for means between \<open>2^-900\<close> and
  \<open>2^900\<close>, which keeps the shape away from underflow and overflow). If \<open>scale \<le> 1\<close>
  then \<^verbatim>\<open>negbinom\<close> raises \<^verbatim>\<open>ZeroDivisionError\<close> or computes a gamma scale parameter
  that is not a positive number (it is negative, zero, infinite or NaN); \<open>scale = 0\<close>
  raises; \<open>scale = 1\<close> gives \<open>p = 0\<close>, infinite shapes (numpy's division by \<open>p\<close>) and
  the scale parameter 0. Nothing checks the precondition: whatever parameters are
  computed are handed to the gamma sampler.
\<close>

theorem negbinom_precondition64:
  "(is_pynum scale \<and> 1 < py_real scale \<and> py_real scale \<le> 2 powi 52
      \<and> (\<forall>m \<in> set mu. 2 powi (- 900) \<le> m \<and> m \<le> 2 powi 900)
    \<longrightarrow> py_real scale \<noteq> 0
      \<and> (\<exists>p q shape s.
            negbinom_p scale = Inr (Fin p) \<and> 0 < p \<and> p < 1
          \<and> one_minus (Fin p) = Fin q \<and> 0 < q \<and> q < 1
          \<and> negbinom_params64 (map Fin mu) scale = Inr (map Fin shape, Fin s)
          \<and> 0 < s \<and> length shape = length mu \<and> (\<forall>i < length mu. 0 < shape ! i)))
   \<and> (is_pynum scale \<and> py_real scale \<le> 1
    \<longrightarrow> negbinom_params64 nu scale = Inl ZeroDivisionError
      \<or> (\<exists>shape s. negbinom_params64 nu scale = Inr (shape, s)
            \<and> \<not> (\<exists>v. s = Fin v \<and> 0 < v)))
   \<and> (py_real scale = 0
    \<longrightarrow> negbinom_params64 nu scale = Inl ZeroDivisionError
      \<and> negbinom64 gam L u nu scale w = Inl ZeroDivisionError)
   \<and> (py_real scale = 1 \<and> (\<forall>m \<in> set mu. 2 powi (- 900) \<le> m \<and> m \<le> 2 powi 900)
    \<longrightarrow> negbinom_p scale = Inr (Fin 0)
      \<and> negbinom_params64 (map Fin mu) scale = Inr (replicate (length mu) PInf, Fin 0))
   \<and> (\<forall>shape s. negbinom_params64 nu scale = Inr (shape, s)
    \<longrightarrow> negbinom64 gam L u nu scale w =
          io_bind (gam shape s (length u))
            (\<lambda>x. io_lift (np_broadcast2 (poisson_ppf L) u x)) w)"
proof (intro conjI impI allI)
  assume a: "is_pynum scale \<and> 1 < py_real scale \<and> py_real scale \<le> 2 powi 52
      \<and> (\<forall>m \<in> set mu. 2 powi (- 900) \<le> m \<and> m \<le> 2 powi 900)"
  then show "py_real scale \<noteq> 0" by simp
  from a have h: "is_pynum scale" "1 < py_real scale" "py_real scale \<le> 2 powi 52"
      "\<forall>m \<in> set mu. 2 powi (- 900) \<le> m \<and> m \<le> 2 powi 900"
    by simp_all
  from negbinom_params64_ok [OF h] obtain p q shape s
    where r: "negbinom_p scale = Inr (Fin p)" "0 < p" "p < 1"
      "one_minus (Fin p) = Fin q" "0 < q" "q < 1"
      "negbinom_params64 (map Fin mu) scale = Inr (map Fin shape, Fin s)"
      "0 < s" "length shape = length mu"
      "\<forall>i < length mu. 0 < shape ! i
         \<and> \<bar>shape ! i * s - mu ! i\<bar> \<le> 2 powi (- 51) * mu ! i"
    by (elim exE conjE)
  from r(10) have "\<forall>i < length mu. 0 < shape ! i" by simp
  with r(1-9) show "\<exists>p q shape s.
            negbinom_p scale = Inr (Fin p) \<and> 0 < p \<and> p < 1
          \<and> one_minus (Fin p) = Fin q \<and> 0 < q \<and> q < 1
          \<and> negbinom_params64 (map Fin mu) scale = Inr (map Fin shape, Fin s)
          \<and> 0 < s \<and> length shape = length mu \<and> (\<forall>i < length mu. 0 < shape ! i)"
    by (intro exI conjI)
next
  assume "is_pynum scale \<and> py_real scale \<le> 1"
  then have "is_pynum scale" "py_real scale \<le> 1" by simp_all
  then show "negbinom_params64 nu scale = Inl ZeroDivisionError
      \<or> (\<exists>shape s. negbinom_params64 nu scale = Inr (shape, s)
            \<and> \<not> (\<exists>v. s = Fin v \<and> 0 < v))"
    by (rule negbinom_params64_le_one)
next
  assume "py_real scale = 0"
  then show z: "negbinom_params64 nu scale = Inl ZeroDivisionError"
    by (simp add: negbinom_params64_def negbinom_p_zero)
  then show "negbinom64 gam L u nu scale w = Inl ZeroDivisionError"
    by (rule negbinom64_raises)
next
  assume a: "py_real scale = 1 \<and> (\<forall>m \<in> set mu. 2 powi (- 900) \<le> m \<and> m \<le> 2 powi 900)"
  then show "negbinom_p scale = Inr (Fin 0)" by (simp add: negbinom_p_one)
  from a show "negbinom_params64 (map Fin mu) scale = Inr (replicate (length mu) PInf, Fin 0)"
    by (intro negbinom_params64_one) simp_all
next
  fix shape s
  assume "negbinom_params64 nu scale = Inr (shape, s)"
  then show "negbinom64 gam L u nu scale w =
          io_bind (gam shape s (length u))
            (\<lambda>x. io_lift (np_broadcast2 (poisson_ppf L) u x)) w"
    by (rule negbinom64_reaches_gamma)
qed

theorem negbinom_precondition64_witness:
  "is_pynum (PyInt 10) \<and> 1 < py_real (PyInt 10) \<and> py_real (PyInt 10) \<le> 2 powi 52
   \<and> (\<exists>p q shape s.
          negbinom_p (PyInt 10) = Inr (Fin p) \<and> 0 < p \<and> p < 1
        \<and> one_minus (Fin p) = Fin q \<and> 0 < q \<and> q < 1
        \<and> negbinom_params64 (map Fin [3]) (PyInt 10) = Inr (map Fin shape, Fin s)
        \<and> 0 < s \<and> 0 < shape ! 0)
   \<and> is_pynum (PyFloat (1/2)) \<and> py_real (PyFloat (1/2)) \<le> 1
   \<and> (negbinom_params64 [Fin 3] (PyFloat (1/2)) = Inl ZeroDivisionError
        \<or> (\<exists>shape s. negbinom_params64 [Fin 3] (PyFloat (1/2)) = Inr (shape, s)
              \<and> \<not> (\<exists>v. s = Fin v \<and> 0 < v)))
   \<and> negbinom64 toy_gamma64 toy_lib [Fin (1/2)] [Fin 3] (PyInt 0) 0 = Inl ZeroDivisionError
   \<and> negbinom_p (PyInt 1) = Inr (Fin 0)
   \<and> negbinom_params64 (map Fin [3]) (PyInt 1) = Inr ([PInf], Fin 0)"
proof -
  have a: "is_pynum (PyInt 10)" "1 < py_real (PyInt 10)" "py_real (PyInt 10) \<le> 2 powi 52"
    by simp_all
  have m: "\<forall>m \<in> set [3::real]. 2 powi (- 900) \<le> m \<and> m \<le> 2 powi 900"
    by (simp add: power_int_minus)
  have "\<exists>p q shape s.
          negbinom_p (PyInt 10) = Inr (Fin p) \<and> 0 < p \<and> p < 1
        \<and> one_minus (Fin p) = Fin q \<and> 0 < q \<and> q < 1
        \<and> negbinom_params64 (map Fin [3]) (PyInt 10) = Inr (map Fin shape, Fin s)
        \<and> 0 < s \<and> length shape = length [3::real] \<and> (\<forall>i < length [3::real]. 0 < shape ! i)"
    using negbinom_precondition64 [of "PyInt 10" "[3]" "[Fin 3]" toy_gamma64 toy_lib "[Fin (1/2)]" 0]
      a m by blast
  then have b: "\<exists>p q shape s.
          negbinom_p (PyInt 10) = Inr (Fin p) \<and> 0 < p \<and> p < 1
        \<and> one_minus (Fin p) = Fin q \<and> 0 < q \<and> q < 1
        \<and> negbinom_params64 (map Fin [3]) (PyInt 10) = Inr (map Fin shape, Fin s)
        \<and> 0 < s \<and> 0 < shape ! 0"
    by (elim exE conjE) (intro exI conjI; assumption?; simp)
  have c: "is_pynum (PyFloat (1/2))" "py_real (PyFloat (1/2)) \<le> 1"
    by (simp_all add: fl_half)
  have d: "negbinom_params64 [Fin 3] (PyFloat (1/2)) = Inl ZeroDivisionError
        \<or> (\<exists>shape s. negbinom_params64 [Fin 3] (PyFloat (1/2)) = Inr (shape, s)
              \<and> \<not> (\<exists>v. s = Fin v \<and> 0 < v))"
    using negbinom_precondition64 [of "PyFloat (1/2)" "[3]" "[Fin 3]" toy_gamma64 toy_lib
        "[Fin (1/2)]" 0] c by blast
  have e: "negbinom64 toy_gamma64 toy_lib [Fin (1/2)] [Fin 3] (PyInt 0) 0 = Inl ZeroDivisionError"
    using negbinom_precondition64 [of "PyInt 0" "[3]" "[Fin 3]" toy_gamma64 toy_lib
        "[Fin (1/2)]" 0] by simp
  have "negbinom_p (PyInt 1) = Inr (Fin 0)
      \<and> negbinom_params64 (map Fin [3]) (PyInt 1) = Inr (replicate (length [3::real]) PInf, Fin 0)"
    using negbinom_precondition64 [of "PyInt 1" "[3]" "[Fin 3]" toy_gamma64 toy_lib
        "[Fin (1/2)]" 0] m by simp
  then have f: "negbinom_p (PyInt 1) = Inr (Fin 0)"
      "negbinom_params64 (map Fin [3]) (PyInt 1) = Inr ([PInf], Fin 0)"
    by simp_all
  show ?thesis using a b c d e f by (intro conjI)
qed

text \<open>
  The counterexample: \<open>scale = 1e17\<close> is a float above 1; \<open>scale - 1\<close> rounds to \<open>scale\<close>,
  so \<open>p = 1.0\<close>, \<open>1 - p = 0.0\<close> and \<^verbatim>\<open>p / (1 - p)\<close> raises.
\<close>

theorem negbinom_precondition_fails:
  "is_pynum (PyFloat 100000000000000000) \<and> 1 < py_real (PyFloat 100000000000000000)
   \<and> negbinom_p (PyFloat 100000000000000000) = Inr (Fin 1)
   \<and> one_minus (Fin 1) = Fin 0
   \<and> negbinom_params64 (map Fin [3]) (PyFloat 100000000000000000) = Inl ZeroDivisionError"
  using fl_1e17 negbinom_p_1e17 one_minus_one negbinom_params64_p_one [OF negbinom_p_1e17]
  by simp

section \<open>The correlated normal vector and the group vector\<close>

lemma np_kron_ones: "np_kron u (np_ones m) = concat (map (replicate m) u)"
  by (simp add: np_kron_def np_ones_def cong: map_cong)

lemma length_concat_replicate: "length (concat (map (replicate m) u)) = length u * m"
  by (induction u) simp_all

lemma nth_concat_replicate:
  "i < length u * m \<Longrightarrow> concat (map (replicate m) u) ! i = u ! (i div m)"
proof (induction u arbitrary: i)
  case Nil
  then show ?case by simp
next
  case (Cons a u)
  show ?case
  proof (cases "i < m")
    case True
    then show ?thesis by (simp add: nth_append)
  next
    case False
    then have m: "0 < m" and le: "m \<le> i" using Cons.prems by (cases m; simp)+
    have lt: "i - m < length u * m" using Cons.prems le by simp
    have d: "i div m = Suc ((i - m) div m)"
      using le m by (simp add: le_div_geq)
    show ?thesis
      using False Cons.IH [OF lt] by (simp add: nth_append d)
  qed
qed

lemma set_concat_replicate: "0 < m \<Longrightarrow> set (concat (map (replicate m) u)) = set u"
  by (induction u) auto

lemma corr_normal_one:
  assumes "length z = length u * m"
  shows "corr_normal 1 z u m = Inr (map Fin z)"
proof -
  have len: "length (concat (map (replicate m) u)) = length z"
    using assms by (simp add: length_concat_replicate)
  have "map2 np_add (map (\<lambda>z_i. Fin (1 * z_i)) z)
          (map (\<lambda>u_i. np_mul (Fin 0) (Fin u_i)) (concat (map (replicate m) u))) = map Fin z"
    using len by (intro nth_equalityI) simp_all
  then show ?thesis
    using len by (simp add: corr_normal_def np_kron_ones np_broadcast2_def np_sqrt_def)
qed

lemma corr_normal_zero:
  assumes "length z = length u * m"
  shows "corr_normal 0 z u m = Inr (map Fin (np_kron u (np_ones m)))"
proof -
  have len: "length (concat (map (replicate m) u)) = length z"
    using assms by (simp add: length_concat_replicate)
  have "map2 np_add (map (\<lambda>z_i. Fin (0 * z_i)) z)
          (map (\<lambda>u_i. np_mul (Fin 1) (Fin u_i)) (concat (map (replicate m) u)))
        = map Fin (concat (map (replicate m) u))"
    using len by (intro nth_equalityI) simp_all
  then show ?thesis
    using len by (simp add: corr_normal_def np_kron_ones np_broadcast2_def np_sqrt_def)
qed

text \<open>
  Claim C1 says that \<open>r = 1\<close> makes the combined vector constant within each cluster and
  that \<open>r = 0\<close> makes it the per-observation draws. The code weights the per-observation
  draws \<open>z\<close> by \<open>r\<close> and the cluster draws by \<open>sqrt (1 - r\<^sup>2)\<close>, so it is the other way
  round (\<open>corr_normal_one\<close>, \<open>corr_normal_zero\<close>), although the script's comment calls
  \<open>r\<close> the intraclass correlation. With one cluster of two observations, \<open>z = [0, 1]\<close>
  and \<open>u = [5]\<close>: \<open>r = 1\<close> returns \<open>z\<close>, which is not constant on the cluster, and
  \<open>r = 0\<close> returns the cluster value twice, which is not \<open>z\<close>.
\<close>

theorem corr_normal_weights_swapped:
  "corr_normal 1 [0, 1] [5] 2 = Inr [Fin 0, Fin 1]
   \<and> corr_normal 0 [0, 1] [5] 2 = Inr [Fin 5, Fin 5]"
proof -
  have k: "np_kron [5] (np_ones 2) = [5, 5]"
    by (simp add: np_kron_ones numeral_2_eq_2)
  have "corr_normal 1 [0, 1] [5] 2 = Inr (map Fin [0, 1])"
    by (rule corr_normal_one) simp
  moreover have "corr_normal 0 [0, 1] [5] 2 = Inr (map Fin (np_kron [5] (np_ones 2)))"
    by (rule corr_normal_zero) simp
  ultimately show ?thesis by (simp add: k)
qed

text \<open>
  Claim C8. For a cluster size \<open>m > 0\<close> that divides \<open>n\<close>, the group vector has length
  \<open>n\<close>, its entry \<open>i\<close> is the integer \<open>i div m\<close> (so each label fills \<open>m\<close> consecutive
  places), and its labels are exactly \<open>0, ..., n div m - 1\<close>: \<open>n div m\<close> distinct
  clusters. It is computed once, by \<open>module_globals\<close>, and \<^verbatim>\<open>dosim\<close> only reads it.
  The witness is the script's \<open>n = 1000\<close>, \<open>m = 10\<close>: 100 clusters of 10.
\<close>

theorem grp_clusters:
  assumes "0 < m" and "m dvd n"
  shows "\<exists>g. grp n m = Inr g \<and> length g = n
           \<and> (\<forall>i < n. g ! i = real (i div m))
           \<and> set g = real ` {0 ..< n div m} \<and> card (set g) = n div m"
proof -
  let ?k = "n div m"
  let ?g = "concat (map (replicate m) (map real [0..<?k]))"
  have q: "real n / real m = real ?k"
    using assms by (simp add: real_of_nat_div)
  have g: "grp n m = Inr ?g"
    using assms(1) by (simp add: grp_def py_truediv_def q np_arange_def np_kron_ones)
  have km: "?k * m = n" using assms by simp
  have len: "length ?g = n"
    using length_concat_replicate [of m "map real [0..<?k]"] km by simp
  have nth: "\<forall>i < n. ?g ! i = real (i div m)"
  proof (intro allI impI)
    fix i assume i: "i < n"
    then have "i < length (map real [0..<?k]) * m" by (simp add: km)
    then have "?g ! i = map real [0..<?k] ! (i div m)" by (rule nth_concat_replicate)
    moreover have "i div m < ?k"
      using i km assms(1) by (metis less_mult_imp_div_less mult.commute)
    ultimately show "?g ! i = real (i div m)" by simp
  qed
  have st: "set ?g = real ` {0 ..< ?k}"
    using set_concat_replicate [OF assms(1), of "map real [0..<?k]"] by simp
  have "card (real ` {0 ..< ?k}) = ?k"
    by (simp add: card_image inj_on_def)
  then show ?thesis using g len nth st by auto
qed

theorem grp_clusters_witness:
  "(0::nat) < 10 \<and> (10::nat) dvd 1000
   \<and> (\<exists>g. grp 1000 10 = Inr g \<and> length g = 1000 \<and> g ! 0 = 0 \<and> g ! 9 = 0
           \<and> g ! 10 = 1 \<and> g ! 999 = 99 \<and> card (set g) = 100)"
proof -
  have a: "(0::nat) < 10" and b: "(10::nat) dvd 1000" by simp_all
  obtain g where g: "grp 1000 10 = Inr g" "length g = 1000"
      "\<forall>i < 1000. g ! i = real (i div 10)" "card (set g) = 1000 div 10"
    using grp_clusters [OF a b] by blast
  have "g ! 0 = 0" "g ! 9 = 0" "g ! 10 = 1" "g ! 999 = 99"
    using g(3) by simp_all
  then show ?thesis using a b g by auto
qed

section \<open>The output of the negative binomial generator\<close>

lemma np_div_Fin: "b \<noteq> 0 \<Longrightarrow> np_div (Fin a) (Fin b) = Fin (a / b)"
  by simp

lemma negbinom_params_valid:
  assumes "1 < scale" and "\<forall>a \<in> set mu. \<exists>v. a = Fin v \<and> 0 < v"
  shows "\<exists>shape s. negbinom_params mu scale = Inr (shape, s) \<and> 0 < s
           \<and> length shape = length mu \<and> (\<forall>a \<in> set shape. \<exists>v. a = Fin v \<and> 0 < v)"
proof -
  let ?p = "(scale - 1) / scale"
  have p0: "0 < ?p" and p1: "?p < 1" using assms(1) by simp_all
  then have q0: "0 < 1 - ?p" by simp
  have pn: "?p \<noteq> 0" using p0 by (rule less_imp_neq [THEN not_sym])
  let ?f = "\<lambda>mu_i. np_div (np_mul mu_i (Fin (1 - ?p))) (Fin ?p)"
  have eq: "negbinom_params mu scale = Inr (map ?f mu, ?p / (1 - ?p))"
    using assms(1) by (simp add: negbinom_params_eq)
  have "\<forall>a \<in> set (map ?f mu). \<exists>v. a = Fin v \<and> 0 < v"
  proof
    fix a assume "a \<in> set (map ?f mu)"
    then obtain b where b: "b \<in> set mu" and a: "a = ?f b" by auto
    from assms(2) b obtain v where v: "b = Fin v" "0 < v" by blast
    have "0 < v * (1 - ?p) / ?p"
      by (rule divide_pos_pos [OF mult_pos_pos [OF v(2) q0] p0])
    moreover have "a = Fin (v * (1 - ?p) / ?p)"
      by (simp only: a v(1) np_mul.simps np_div_Fin [OF pn])
    ultimately show "\<exists>v. a = Fin v \<and> 0 < v" by blast
  qed
  moreover have "0 < ?p / (1 - ?p)" by (rule divide_pos_pos [OF p0 q0])
  ultimately show ?thesis using eq by auto
qed

lemma negbinom_succeeds:
  assumes gc: "gamma_contract L"
    and s: "1 < scale"
    and mu: "\<forall>a \<in> set mu. \<exists>v. a = Fin v \<and> 0 < v"
    and len: "length mu = length u"
  shows "\<exists>x w1. negbinom L u mu scale w = Inr (map2 (poisson_ppf L) u x, w1)
           \<and> length x = length u \<and> (\<forall>a \<in> set x. \<exists>v. a = Fin v \<and> 0 \<le> v)"
proof -
  obtain shape sc where ps: "negbinom_params mu scale = Inr (shape, sc)" "0 < sc"
      "length shape = length mu" "\<forall>a \<in> set shape. \<exists>v. a = Fin v \<and> 0 < v"
    using negbinom_params_valid [OF s mu] by blast
  have pre: "0 < sc \<and> length shape = length u \<and> (\<forall>a \<in> set shape. \<exists>v. a = Fin v \<and> 0 < v)"
    using ps(2,3,4) len by simp
  have "\<exists>x w1. random_gamma L shape sc (length u) w = Inr (x, w1) \<and> length x = length u
           \<and> (\<forall>a \<in> set x. \<exists>v. a = Fin v \<and> 0 \<le> v)"
    by (rule gc [unfolded gamma_contract_def, rule_format, OF pre])
  then obtain x w1 where x: "random_gamma L shape sc (length u) w = Inr (x, w1)"
      "length x = length u" "\<forall>a \<in> set x. \<exists>v. a = Fin v \<and> 0 \<le> v"
    by blast
  have "negbinom L u mu scale w = Inr (map2 (poisson_ppf L) u x, w1)"
    using x(1,2) by (simp add: negbinom_reaches_gamma [OF ps(1)] io_bind_def io_lift_def
        np_broadcast2_def)
  then show ?thesis using x(2,3) by blast
qed

lemma toy_gamma_contract: "gamma_contract toy_lib"
  by (simp add: gamma_contract_def toy_lib_def)

lemma toy_ppf_contract: "ppf_contract toy_lib"
  unfolding ppf_contract_def
proof (intro allI impI)
  fix q x :: real
  have "poisson_ppf toy_lib (Fin q) (Fin x) = Fin (real (nat \<lfloor>x\<rfloor>))"
    by (simp add: toy_lib_def)
  then show "\<exists>j::nat. poisson_ppf toy_lib (Fin q) (Fin x) = Fin (real j)"
    by (rule exI)
qed

lemma toy_gamma_contract64: "gamma_contract64 toy_gamma64"
  by (simp add: gamma_contract64_def toy_gamma64_def)

text \<open>
  Claim C6. For \<open>scale > 1\<close> alone the claim fails in binary64: at the \<^verbatim>\<open>int\<close>
  \<open>scale = 10**17\<close>, \<open>u = [0.5]\<close> and \<open>mu = [3]\<close>, \<^verbatim>\<open>negbinom\<close> raises
  \<^verbatim>\<open>ZeroDivisionError\<close> and returns no array (\<open>negbinom_output_fails\<close> below). What
  holds: for a vector \<open>u\<close> of values strictly between 0 and 1, a vector of means between
  \<open>2^-900\<close> and \<open>2^900\<close> of the same length and a Python number \<open>scale\<close> with
  \<open>1 < scale \<le> 2^52\<close>, \<^verbatim>\<open>negbinom\<close> returns, and what it returns is a vector of
  non-negative integers as long as \<open>u\<close>. The gamma sampler and the Poisson quantile
  function are taken at their contracts: the parameters \<^verbatim>\<open>negbinom\<close> hands to the
  sampler are valid, so the sampler's draws are finite and non-negative and their
  quantiles are counts.
\<close>

theorem negbinom_output64:
  assumes gc: "gamma_contract64 gam" and pc: "ppf_contract L"
    and u: "\<forall>q \<in> set u. 0 < q \<and> q < 1"
    and mu: "\<forall>m \<in> set mu. 2 powi (- 900) \<le> m \<and> m \<le> 2 powi 900"
    and len: "length mu = length u"
    and sc: "is_pynum scale" "1 < py_real scale" "py_real scale \<le> 2 powi 52"
  shows "\<exists>y w1. negbinom64 gam L (map Fin u) (map Fin mu) scale w = Inr (y, w1)
           \<and> length y = length u \<and> (\<forall>a \<in> set y. \<exists>j::nat. a = Fin (real j))"
proof -
  from negbinom_params64_ok [OF sc mu] obtain p q shape s
    where r: "negbinom_params64 (map Fin mu) scale = Inr (map Fin shape, Fin s)"
      "0 < s" "length shape = length mu"
      "\<forall>i < length mu. 0 < shape ! i
         \<and> \<bar>shape ! i * s - mu ! i\<bar> \<le> 2 powi (- 51) * mu ! i"
    by (elim exE conjE)
  have sh: "\<forall>a \<in> set (map Fin shape). \<exists>v. a = Fin v \<and> 0 < v"
  proof
    fix a assume "a \<in> set (map Fin shape)"
    then obtain v where v: "v \<in> set shape" "a = Fin v" by auto
    then obtain i where "i < length shape" "shape ! i = v" by (auto simp: in_set_conv_nth)
    then have "0 < v" using r(3,4) by auto
    then show "\<exists>v. a = Fin v \<and> 0 < v" using v(2) by blast
  qed
  have pre: "(\<exists>v. Fin s = Fin v \<and> 0 < v) \<and> length (map Fin shape) = length (map Fin u)
      \<and> (\<forall>a \<in> set (map Fin shape). \<exists>v. a = Fin v \<and> 0 < v)"
    using r(2,3) len sh by simp
  have "\<exists>x w1. gam (map Fin shape) (Fin s) (length (map Fin u)) w = Inr (x, w1)
      \<and> length x = length (map Fin u) \<and> (\<forall>a \<in> set x. \<exists>v. a = Fin v \<and> 0 \<le> v)"
    by (rule gc [unfolded gamma_contract64_def, rule_format, OF pre])
  then obtain x w1 where x: "gam (map Fin shape) (Fin s) (length (map Fin u)) w = Inr (x, w1)"
      "length x = length (map Fin u)" "\<forall>a \<in> set x. \<exists>v. a = Fin v \<and> 0 \<le> v"
    by blast
  have run: "negbinom64 gam L (map Fin u) (map Fin mu) scale w
      = Inr (map2 (poisson_ppf L) (map Fin u) x, w1)"
    using x(1,2) by (simp add: negbinom64_reaches_gamma [OF r(1)] io_bind_def io_lift_def
        np_broadcast2_def)
  have "\<forall>a \<in> set (map2 (poisson_ppf L) (map Fin u) x). \<exists>j::nat. a = Fin (real j)"
  proof
    fix a assume "a \<in> set (map2 (poisson_ppf L) (map Fin u) x)"
    then obtain b c where bc: "(b, c) \<in> set (zip (map Fin u) x)" and a: "a = poisson_ppf L b c"
      by auto
    have "b \<in> set (map Fin u)" and "c \<in> set x"
      using bc by (auto dest: set_zip_leftD set_zip_rightD)
    then obtain q v where qv: "b = Fin q" "0 < q \<and> q < 1" "c = Fin v" "0 \<le> v"
      using u x(3) by auto
    have "\<exists>j::nat. poisson_ppf L (Fin q) (Fin v) = Fin (real j)"
      using pc [unfolded ppf_contract_def, rule_format, of q v] qv(2,4) by simp
    then show "\<exists>j::nat. a = Fin (real j)"
      using a qv(1,3) by simp
  qed
  then show ?thesis using run x(2) by auto
qed

theorem negbinom_output64_witness:
  "gamma_contract64 toy_gamma64 \<and> ppf_contract toy_lib
   \<and> is_pynum (PyInt 10) \<and> 1 < py_real (PyInt 10) \<and> py_real (PyInt 10) \<le> 2 powi 52
   \<and> negbinom64 toy_gamma64 toy_lib (map Fin [1/2, 1/4]) (map Fin [3, 1]) (PyInt 10) 0
       = Inr ([Fin 2, Fin 2], 1)
   \<and> (\<exists>y w1. negbinom64 toy_gamma64 toy_lib (map Fin [1/2, 1/4]) (map Fin [3, 1]) (PyInt 10) 0
          = Inr (y, w1)
        \<and> length y = 2 \<and> (\<exists>j::nat. y ! 0 = Fin (real j)) \<and> (\<exists>j::nat. y ! 1 = Fin (real j)))"
proof -
  have u: "\<forall>q \<in> set [1/2, 1/4::real]. 0 < q \<and> q < 1" by simp
  have mu: "\<forall>m \<in> set [3, 1::real]. 2 powi (- 900) \<le> m \<and> m \<le> 2 powi 900"
    by (simp add: power_int_minus)
  have len: "length [3, 1::real] = length [1/2, 1/4::real]" by simp
  have a: "is_pynum (PyInt 10)" "1 < py_real (PyInt 10)" "py_real (PyInt 10) \<le> 2 powi 52"
    by simp_all
  obtain y w1 where y:
      "negbinom64 toy_gamma64 toy_lib (map Fin [1/2, 1/4]) (map Fin [3, 1]) (PyInt 10) 0
         = Inr (y, w1)"
      "length y = length [1/2, 1/4::real]" "\<forall>a \<in> set y. \<exists>j::nat. a = Fin (real j)"
    using negbinom_output64 [OF toy_gamma_contract64 toy_ppf_contract u mu len a, of 0] by blast
  have a1: "1 \<le> py_real (PyInt 10)" by simp
  from negbinom_params_same_branch [OF a(1) a1 a(3), of "map Fin [3, 1]"] obtain r s
    where "negbinom_params64 (map Fin [3, 1]) (PyInt 10) = Inr (r, s)" by blast
  then have ev: "negbinom64 toy_gamma64 toy_lib (map Fin [1/2, 1/4]) (map Fin [3, 1]) (PyInt 10) 0
      = Inr ([Fin 2, Fin 2], 1)"
    by (simp add: negbinom64_def io_bind_def io_lift_def toy_gamma64_def toy_lib_def
        np_broadcast2_def numeral_2_eq_2)
  have "y ! 0 \<in> set y" "y ! 1 \<in> set y" using y(2) by simp_all
  then have "(\<exists>j::nat. y ! 0 = Fin (real j))" "(\<exists>j::nat. y ! 1 = Fin (real j))"
    using y(3) by blast+
  then show ?thesis
    using y(1,2) ev toy_gamma_contract64 toy_ppf_contract a by auto
qed

text \<open>
  The counterexample: \<open>(10**17 - 1) / 10**17\<close> rounds to \<open>1.0\<close>, so \<open>1 - p\<close> is \<open>0.0\<close>
  and line 48 raises before the sampler is called.
\<close>

theorem negbinom_output_fails:
  "gamma_contract64 toy_gamma64 \<and> ppf_contract toy_lib
   \<and> 1 < py_real (PyInt 100000000000000000)
   \<and> negbinom64 toy_gamma64 toy_lib [Fin (1/2)] [Fin 3] (PyInt 100000000000000000) 0
       = Inl ZeroDivisionError"
  using toy_gamma_contract64 toy_ppf_contract
    negbinom64_raises [OF negbinom_params64_p_one [OF negbinom_p_int_1e17]]
  by simp

section \<open>The replicates of the simulation driver\<close>

lemma append_at_Inr:
  "append_at i v ls = Inr ls' \<longleftrightarrow> i < length ls \<and> ls' = ls[i := ls ! i @ [v]]"
  by (auto simp: append_at_def)

lemma dosim_iter_run:
  assumes "dosim_iter L G hyp cov (sc, pv) w = Inr (acc', w')"
  shows "\<exists>s0 s1 pval. replicate_run L G hyp cov w (s0, s1, pval) w' \<and> 2 \<le> length sc
           \<and> acc' = (sc[0 := sc ! 0 @ [s0], 1 := sc ! 1 @ [s1]], pv @ [pval])"
proof -
  have "\<exists>z w1 k u w2 z1 mu_h y w3 m0 w4 r0 w5 scales1 m1 w6 r1 w7 scales2 st pval.
      random_normal L (glob_n G) w = Inr (z, w1)
    \<and> py_floordiv (glob_n G) (glob_m G) = Inr k
    \<and> random_normal L k w1 = Inr (u, w2)
    \<and> corr_normal (glob_r G) z u (glob_m G) = Inr z1
    \<and> py_index (glob_mu G) hyp = Inr mu_h
    \<and> negbinom L (map (norm_cdf L) z1) mu_h (glob_scale G) w2 = Inr (y, w3)
    \<and> GEE L y (glob_x0 G) (glob_grp G) cov Poisson w3 = Inr (m0, w4)
    \<and> fit L m0 ''X2'' w4 = Inr (r0, w5)
    \<and> append_at 0 (res_scale L r0) sc = Inr scales1
    \<and> GEE L y (glob_x G) (glob_grp G) cov Poisson w5 = Inr (m1, w6)
    \<and> fit L m1 ''X2'' w6 = Inr (r1, w7)
    \<and> append_at 1 (res_scale L r1) scales1 = Inr scales2
    \<and> compare_score_test L m1 r0 w7 = Inr (st, w')
    \<and> (case st ''p-value'' of None \<Rightarrow> Inl KeyError | Some v \<Rightarrow> Inr v) = Inr pval
    \<and> acc' = (scales2, pv @ [pval])"
    using assms unfolding dosim_iter_def fst_conv snd_conv io_bind_Inr io_lift_Inr io_return_Inr
    by (elim exE conjE, hypsubst) (intro exI conjI; assumption?; rule refl)
  then obtain z w1 k u w2 z1 mu_h y w3 m0 w4 r0 w5 scales1 m1 w6 r1 w7 scales2 st pval
    where h: "random_normal L (glob_n G) w = Inr (z, w1)"
      "py_floordiv (glob_n G) (glob_m G) = Inr k"
      "random_normal L k w1 = Inr (u, w2)"
      "corr_normal (glob_r G) z u (glob_m G) = Inr z1"
      "py_index (glob_mu G) hyp = Inr mu_h"
      "negbinom L (map (norm_cdf L) z1) mu_h (glob_scale G) w2 = Inr (y, w3)"
      "GEE L y (glob_x0 G) (glob_grp G) cov Poisson w3 = Inr (m0, w4)"
      "fit L m0 ''X2'' w4 = Inr (r0, w5)"
      "append_at 0 (res_scale L r0) sc = Inr scales1"
      "GEE L y (glob_x G) (glob_grp G) cov Poisson w5 = Inr (m1, w6)"
      "fit L m1 ''X2'' w6 = Inr (r1, w7)"
      "append_at 1 (res_scale L r1) scales1 = Inr scales2"
      "compare_score_test L m1 r0 w7 = Inr (st, w')"
      "(case st ''p-value'' of None \<Rightarrow> Inl KeyError | Some v \<Rightarrow> Inr v) = Inr pval"
      "acc' = (scales2, pv @ [pval])"
    by (elim exE conjE)
  from h(2) have m: "glob_m G \<noteq> 0" and k: "k = glob_n G div glob_m G"
    by (auto simp: py_floordiv_def split: if_splits)
  from h(14) have st: "st ''p-value'' = Some pval"
    by (simp split: option.splits)
  from h(9) have s1: "0 < length sc" "scales1 = sc[0 := sc ! 0 @ [res_scale L r0]]"
    by (simp_all add: append_at_Inr)
  from h(12) s1 have s2: "1 < length sc"
      "scales2 = sc[0 := sc ! 0 @ [res_scale L r0], 1 := sc ! 1 @ [res_scale L r1]]"
    by (simp_all add: append_at_Inr)
  have "replicate_run L G hyp cov w (res_scale L r0, res_scale L r1, pval) w'"
    unfolding replicate_run_def
    using h(1) m h(3) [unfolded k] h(4,5,6,7,8,10,11,13) st by blast
  then show ?thesis using s2 h(15) by auto
qed

lemma dosim_loop_run:
  assumes "dosim_loop L G hyp cov k (sc, pv) w = Inr ((sc', pv'), w')"
    and "length sc = 2"
  shows "\<exists>outs. length outs = k \<and> replicates_run L G hyp cov outs w w'
           \<and> sc' = [sc ! 0 @ map fst outs, sc ! 1 @ map (fst \<circ> snd) outs]
           \<and> pv' = pv @ map (snd \<circ> snd) outs"
  using assms
proof (induction k arbitrary: sc pv w)
  case 0
  then have "sc' = sc" "pv' = pv" "w' = w"
    by (simp_all add: io_return_Inr)
  moreover have "sc = [sc ! 0, sc ! 1]"
    using "0.prems"(2) by (cases sc; cases "tl sc"; auto)
  ultimately show ?case by simp
next
  case (Suc k)
  from Suc.prems(1) obtain acc1 w1
    where it: "dosim_iter L G hyp cov (sc, pv) w = Inr (acc1, w1)"
      and lp: "dosim_loop L G hyp cov k acc1 w1 = Inr ((sc', pv'), w')"
    by (auto simp: io_bind_Inr)
  from dosim_iter_run [OF it] obtain s0 s1 pval
    where run: "replicate_run L G hyp cov w (s0, s1, pval) w1"
      and acc1: "acc1 = (sc[0 := sc ! 0 @ [s0], 1 := sc ! 1 @ [s1]], pv @ [pval])"
    by blast
  let ?sc1 = "sc[0 := sc ! 0 @ [s0], 1 := sc ! 1 @ [s1]]"
  have len1: "length ?sc1 = 2" using Suc.prems(2) by simp
  from Suc.IH [OF lp [unfolded acc1] len1] obtain outs
    where outs: "length outs = k" "replicates_run L G hyp cov outs w1 w'"
      "sc' = [?sc1 ! 0 @ map fst outs, ?sc1 ! 1 @ map (fst \<circ> snd) outs]"
      "pv' = (pv @ [pval]) @ map (snd \<circ> snd) outs"
    by blast
  have a: "?sc1 ! 0 = sc ! 0 @ [s0]" "?sc1 ! 1 = sc ! 1 @ [s1]"
    using Suc.prems(2) by simp_all
  let ?outs = "(s0, s1, pval) # outs"
  have "length ?outs = Suc k" using outs(1) by simp
  moreover have "replicates_run L G hyp cov ?outs w w'"
    using run outs(2) by auto
  moreover have "sc' = [sc ! 0 @ map fst ?outs, sc ! 1 @ map (fst \<circ> snd) ?outs]"
    using outs(3) a by simp
  moreover have "pv' = pv @ map (snd \<circ> snd) ?outs"
    using outs(4) by simp
  ultimately show ?case by blast
qed

lemma dosim_run:
  assumes "dosim L G hyp cov mcrep w = Inr ((rslt, scales), w')"
  shows "\<exists>outs. length outs = nat mcrep \<and> replicates_run L G hyp cov outs w w'
           \<and> scales = [map fst outs, map (fst \<circ> snd) outs]
           \<and> rslt = [np_mean (map (snd \<circ> snd) outs),
                      np_mean (map (\<lambda>a. bool_float (np_less a (1/10))) (map (snd \<circ> snd) outs))]"
proof -
  from assms obtain sc pv
    where lp: "dosim_loop L G hyp cov (nat mcrep) ([[], []], []) w = Inr ((sc, pv), w')"
      and r: "rslt = [np_mean pv, np_mean (map (\<lambda>a. bool_float (np_less a (1/10))) pv)]"
      and s: "scales = sc"
    unfolding dosim_def by (auto simp: io_bind_Inr io_return_Inr)
  from dosim_loop_run [OF lp] obtain outs
    where "length outs = nat mcrep" "replicates_run L G hyp cov outs w w'"
      "sc = [[[], []] ! 0 @ map fst outs, [[], []] ! 1 @ map (fst \<circ> snd) outs]"
      "pv = [] @ map (snd \<circ> snd) outs"
    by auto
  then show ?thesis using r s by auto
qed

subsection \<open>The driver on the small library\<close>

lemma toy_corr: "corr_normal 0 [0, 1] [1] 2 = Inr [Fin 1, Fin 1]"
  by (simp add: corr_normal_def np_kron_def np_ones_def np_broadcast2_def np_sqrt_def
      numeral_2_eq_2)

lemma toy_negbinom:
  "negbinom toy_lib [Fin (1/2), Fin (1/2)] [Fin 3, Fin 1] 10 (2::nat) = Inr ([Fin 2, Fin 2], 3)"
  by (simp add: negbinom_def negbinom_params_def py_truediv_def io_bind_def io_lift_def
      toy_lib_def np_broadcast2_def numeral_2_eq_2)

lemma toy_dosim_iter:
  "dosim_iter toy_lib toy_globals 0 None ([[], []], []) (0::nat)
     = Inr (([[Fin 3], [Fin 5]], [Fin (1/8)]), 8)"
proof -
  have n: "random_normal toy_lib 2 (0::nat) = Inr ([0, 1], 1)"
    by (simp add: toy_lib_def numeral_2_eq_2)
  have u: "random_normal toy_lib (Suc 0) (Suc 0) = Inr ([1], 2)"
    by (simp add: toy_lib_def)
  have c: "norm_cdf toy_lib = (\<lambda>a. Fin (1/2))" by (simp add: toy_lib_def)
  have g0: "GEE toy_lib y [[1, 1, 2], [1, 2, 3]] g None Poisson (3::nat) = Inr (3, 4)" for y g
    by (simp add: toy_lib_def)
  have g1: "GEE toy_lib y [[1, 1, 2, 3, 4], [1, 2, 3, 4, 5]] g None Poisson (5::nat) = Inr (5, 6)"
    for y g
    by (simp add: toy_lib_def)
  have f: "fit toy_lib m s w = Inr (m, Suc w)" for m s w by (simp add: toy_lib_def)
  have r: "res_scale toy_lib k = Fin (real k)" for k by (simp add: toy_lib_def)
  have t: "compare_score_test toy_lib 5 3 (7::nat) = Inr ([''p-value'' \<mapsto> Fin (1/8)], 8)"
    by (simp add: toy_lib_def)
  have i: "py_index [[Fin 3, Fin 1], [Fin 3, Fin 2]] 0 = Inr [Fin 3, Fin 1]"
    by (simp add: py_index_def)
  show ?thesis
    by (simp add: dosim_iter_def toy_globals_def io_bind_def io_lift_def io_return_def
        py_floordiv_def n u c toy_corr toy_negbinom i g0 g1 f r t append_at_def)
qed

lemma toy_dosim_one:
  "dosim toy_lib toy_globals 0 None 1 (0::nat)
     = Inr (([Fin (1/8), Fin 0], [[Fin 3], [Fin 5]]), 8)"
  by (simp add: dosim_def io_bind_def io_return_def toy_dosim_iter np_mean_def bool_float_def)

subsection \<open>The driver returns\<close>

lemma corr_normal_length:
  assumes "length z = length u * m"
  shows "\<exists>z1. corr_normal r z u m = Inr z1 \<and> length z1 = length z"
proof -
  have "length (np_kron u (np_ones m)) = length z"
    using assms by (simp add: np_kron_ones length_concat_replicate)
  then show ?thesis
    by (simp add: corr_normal_def np_broadcast2_def Let_def)
qed

lemma py_index_01:
  assumes "length xs = 2" and "hyp = 0 \<or> hyp = 1"
  shows "\<exists>a. py_index xs hyp = Inr a \<and> a \<in> set xs"
  using assms by (auto simp: py_index_def)

lemma dosim_iter_total:
  assumes nc: "normal_contract L" and gc: "gamma_contract L" and ge: "gee_contract L"
    and ok: "globals_ok G" and hyp: "hyp = 0 \<or> hyp = 1" and len: "length sc = 2"
  shows "\<exists>acc' w'. dosim_iter L G hyp cov (sc, pv) w = Inr (acc', w')"
proof -
  from ok have m: "0 < glob_m G" and dv: "glob_m G dvd glob_n G" and s: "1 < glob_scale G"
    and l2: "length (glob_mu G) = 2"
    and mus: "\<forall>mu \<in> set (glob_mu G). length mu = glob_n G
        \<and> (\<forall>a \<in> set mu. \<exists>v. a = Fin v \<and> 0 < v)"
    by (simp_all add: globals_ok_def)
  from nc obtain z w1 where z: "random_normal L (glob_n G) w = Inr (z, w1)"
      "length z = glob_n G"
    unfolding normal_contract_def by blast
  have k: "py_floordiv (glob_n G) (glob_m G) = Inr (glob_n G div glob_m G)"
    using m by (simp add: py_floordiv_def)
  from nc obtain u w2 where u: "random_normal L (glob_n G div glob_m G) w1 = Inr (u, w2)"
      "length u = glob_n G div glob_m G"
    unfolding normal_contract_def by blast
  have "length z = length u * glob_m G" using z(2) u(2) dv by simp
  from corr_normal_length [OF this] obtain z1
    where z1: "corr_normal (glob_r G) z u (glob_m G) = Inr z1" "length z1 = length z"
    by blast
  from py_index_01 [OF l2 hyp] obtain mu_h
    where mu_h: "py_index (glob_mu G) hyp = Inr mu_h" "mu_h \<in> set (glob_mu G)"
    by blast
  have mu1: "\<forall>a \<in> set mu_h. \<exists>v. a = Fin v \<and> 0 < v"
    and mu2: "length mu_h = length (map (norm_cdf L) z1)"
    using mus mu_h(2) z1(2) z(2) by auto
  from negbinom_succeeds [OF gc s mu1 mu2] obtain y w3
    where y: "negbinom L (map (norm_cdf L) z1) mu_h (glob_scale G) w2 = Inr (y, w3)"
    by blast
  from ge obtain m0 w4 where m0: "GEE L y (glob_x0 G) (glob_grp G) cov Poisson w3 = Inr (m0, w4)"
    unfolding gee_contract_def by blast
  from ge obtain r0 w5 where r0: "fit L m0 ''X2'' w4 = Inr (r0, w5)"
    unfolding gee_contract_def by blast
  from ge obtain m1 w6 where m1: "GEE L y (glob_x G) (glob_grp G) cov Poisson w5 = Inr (m1, w6)"
    unfolding gee_contract_def by blast
  from ge obtain r1 w7 where r1: "fit L m1 ''X2'' w6 = Inr (r1, w7)"
    unfolding gee_contract_def by blast
  from ge obtain st w8 v where st: "compare_score_test L m1 r0 w7 = Inr (st, w8)"
      "st ''p-value'' = Some v"
    unfolding gee_contract_def by blast
  show ?thesis
    using len
    by (simp add: dosim_iter_def io_bind_def io_lift_def io_return_def
        z(1) k u(1) z1(1) mu_h(1) y m0 r0 m1 r1 st append_at_def)
qed

lemma dosim_loop_total:
  assumes nc: "normal_contract L" and gc: "gamma_contract L" and ge: "gee_contract L"
    and ok: "globals_ok G" and hyp: "hyp = 0 \<or> hyp = 1" and len: "length sc = 2"
  shows "\<exists>res w'. dosim_loop L G hyp cov k (sc, pv) w = Inr (res, w')"
  using len
proof (induction k arbitrary: sc pv w)
  case 0
  show ?case by (simp add: io_return_def)
next
  case (Suc k)
  from dosim_iter_total [OF nc gc ge ok hyp Suc.prems] obtain acc1 w1
    where it: "dosim_iter L G hyp cov (sc, pv) w = Inr (acc1, w1)"
    by blast
  from dosim_iter_run [OF it] obtain s0 s1 pval
    where acc1: "acc1 = (sc[0 := sc ! 0 @ [s0], 1 := sc ! 1 @ [s1]], pv @ [pval])"
    by blast
  have "length (sc[0 := sc ! 0 @ [s0], 1 := sc ! 1 @ [s1]]) = 2"
    using Suc.prems by simp
  from Suc.IH [OF this] obtain res w'
    where "dosim_loop L G hyp cov k acc1 w1 = Inr (res, w')"
    unfolding acc1 by blast
  then show ?case using it by (simp add: io_bind_def)
qed

lemma dosim_total:
  assumes "normal_contract L" and "gamma_contract L" and "gee_contract L"
    and "globals_ok G" and "hyp = 0 \<or> hyp = 1"
  shows "\<exists>rslt scales w'. dosim L G hyp cov mcrep w = Inr ((rslt, scales), w')"
proof -
  have "length [[], []::npfloat list] = 2" by simp
  from dosim_loop_total [OF assms this] obtain res w'
    where "dosim_loop L G hyp cov (nat mcrep) ([[], []], []) w = Inr (res, w')"
    by blast
  then show ?thesis
    by (cases res) (simp add: dosim_def io_bind_def io_return_def)
qed

lemma toy_normal_contract: "normal_contract toy_lib"
  by (simp add: normal_contract_def toy_lib_def)

lemma toy_gee_contract: "gee_contract toy_lib"
  by (simp add: gee_contract_def toy_lib_def)


lemma toy_pvalue_contract: "pvalue_contract toy_lib"
proof -
  have "in_unit (Fin (1 / real k))" for k :: nat
    by (cases "k = 0") (simp_all add: in_unit_def)
  then have "in_unit (Fin (1 / (real m + real r)))" for m r :: nat
    by (metis of_nat_add)
  then show ?thesis
    by (auto simp: pvalue_contract_def toy_lib_def)
qed

subsection \<open>Means\<close>





lemma in_unit_Fin: "in_unit a \<longleftrightarrow> (\<exists>v. a = Fin v \<and> 0 \<le> v \<and> v \<le> 1)"
  by (cases a) (simp_all add: in_unit_def)

lemma np_sum_unit:
  assumes "\<forall>a \<in> set as. in_unit a"
  shows "\<exists>s. np_sum as = Fin s \<and> 0 \<le> s \<and> s \<le> real (length as)"
  using assms
proof (induction as)
  case Nil
  show ?case by simp
next
  case (Cons a as)
  then obtain s where s: "np_sum as = Fin s" "0 \<le> s" "s \<le> real (length as)" by auto
  from Cons.prems obtain v where v: "a = Fin v" "0 \<le> v" "v \<le> 1"
    by (auto simp: in_unit_Fin)
  show ?case using s v by simp
qed

lemma np_mean_unit:
  assumes "as \<noteq> []" and "\<forall>a \<in> set as. in_unit a"
  shows "in_unit (np_mean as)"
proof -
  from np_sum_unit [OF assms(2)] obtain s
    where s: "np_sum as = Fin s" "0 \<le> s" "s \<le> real (length as)" by blast
  have l: "0 < real (length as)" using assms(1) by simp
  have "0 \<le> s / real (length as)" using s(2) l by simp
  moreover have "s / real (length as) \<le> 1" using s(3) l by simp
  ultimately show ?thesis
    using assms(1) s(1) l by (simp add: np_mean_def in_unit_def)
qed

lemma replicates_run_pvalues:
  assumes "pvalue_contract L" and "replicates_run L G hyp cov outs w w'"
  shows "\<forall>out \<in> set outs. in_unit (snd (snd out))"
  using assms(2)
proof (induction outs arbitrary: w)
  case Nil
  show ?case by simp
next
  case (Cons out outs)
  from Cons.prems obtain w1 where r: "replicate_run L G hyp cov w out w1"
    and rest: "replicates_run L G hyp cov outs w1 w'"
    by auto
  from r obtain m1 r0 w7 st pval where "compare_score_test L m1 r0 w7 = Inr (st, w1)"
      "st ''p-value'' = Some pval" "snd (snd out) = pval"
    unfolding replicate_run_def by auto
  then have "in_unit (snd (snd out))"
    using assms(1) unfolding pvalue_contract_def by blast
  then show ?case using Cons.IH [OF rest] by simp
qed

section \<open>What the simulation driver returns\<close>

lemma corr_normal_entries:
  assumes "length z = length u * m"
  shows "corr_normal r z u m =
     Inr (map (\<lambda>i. if r\<^sup>2 \<le> 1 then Fin (r * z ! i + sqrt (1 - r\<^sup>2) * u ! (i div m)) else NaN)
            [0..<length z])"
proof -
  let ?k = "concat (map (replicate m) u)"
  have len: "length ?k = length z"
    using assms by (simp add: length_concat_replicate)
  have nth: "?k ! i = u ! (i div m)" if "i < length z" for i
    using that assms by (simp add: nth_concat_replicate)
  have "map2 np_add (map (\<lambda>z_i. Fin (r * z_i)) z)
          (map (\<lambda>u_i. np_mul (np_sqrt (1 - r\<^sup>2)) (Fin u_i)) ?k)
        = map (\<lambda>i. if r\<^sup>2 \<le> 1 then Fin (r * z ! i + sqrt (1 - r\<^sup>2) * u ! (i div m)) else NaN)
            [0..<length z]"
    using len by (intro nth_equalityI) (simp_all add: nth np_sqrt_def)
  then show ?thesis
    using len by (simp add: corr_normal_def np_kron_ones np_broadcast2_def)
qed

lemma py_index_selected:
  assumes "py_index (glob_mu G) hyp = Inr a" and "hyp = 0 \<or> hyp = 1"
  shows "a = selected_mean G hyp"
  using assms by (auto simp: py_index_def selected_mean_def split: if_splits)

lemma replicate_run_steps:
  assumes run: "replicate_run L G hyp cov w out w'"
    and nc: "normal_contract L" and dv: "glob_m G dvd glob_n G" and hyp: "hyp = 0 \<or> hyp = 1"
  shows "replicate_steps L G hyp cov w out w'"
proof -
  from run obtain z w1 u w2 z1 mu_h y w3 m0 w4 r0 w5 m1 w6 r1 w7 st pval
    where h: "random_normal L (glob_n G) w = Inr (z, w1)"
      "glob_m G \<noteq> 0"
      "random_normal L (glob_n G div glob_m G) w1 = Inr (u, w2)"
      "corr_normal (glob_r G) z u (glob_m G) = Inr z1"
      "py_index (glob_mu G) hyp = Inr mu_h"
      "negbinom L (map (norm_cdf L) z1) mu_h (glob_scale G) w2 = Inr (y, w3)"
      "GEE L y (glob_x0 G) (glob_grp G) cov Poisson w3 = Inr (m0, w4)"
      "fit L m0 ''X2'' w4 = Inr (r0, w5)"
      "GEE L y (glob_x G) (glob_grp G) cov Poisson w5 = Inr (m1, w6)"
      "fit L m1 ''X2'' w6 = Inr (r1, w7)"
      "compare_score_test L m1 r0 w7 = Inr (st, w')"
      "st ''p-value'' = Some pval"
      "out = (res_scale L r0, res_scale L r1, pval)"
    unfolding replicate_run_def by (elim exE conjE)
  have lz: "length z = glob_n G"
    using nc h(1) unfolding normal_contract_def by (metis Inr_inject prod.inject)
  have lu: "length u = glob_n G div glob_m G"
    using nc h(3) unfolding normal_contract_def by (metis Inr_inject prod.inject)
  have "length z = length u * glob_m G" using lz lu dv by simp
  from corr_normal_entries [OF this, of "glob_r G"] h(4) lz
  have z1: "map (norm_cdf L) z1
      = correlated_uniform L (glob_n G) (glob_m G) (glob_r G) z u"
    by (simp add: correlated_uniform_def comp_def)
  have mu: "mu_h = selected_mean G hyp" by (rule py_index_selected [OF h(5) hyp])
  show ?thesis
    unfolding replicate_steps_def
    using h(1) lz h(2,3) lu h(6) [unfolded z1 mu] h(7-13) by blast
qed

lemma replicates_run_steps:
  assumes "replicates_run L G hyp cov outs w w'"
    and nc: "normal_contract L" and dv: "glob_m G dvd glob_n G" and hyp: "hyp = 0 \<or> hyp = 1"
  shows "replicates_steps L G hyp cov outs w w'"
  using assms(1)
proof (induction outs arbitrary: w)
  case Nil
  then show ?case by simp
next
  case (Cons out outs)
  from Cons.prems obtain w1 where r: "replicate_run L G hyp cov w out w1"
    and rest: "replicates_run L G hyp cov outs w1 w'"
    by auto
  show ?case
    using replicate_run_steps [OF r nc dv hyp] Cons.IH [OF rest] by auto
qed

lemma toy2_normal_contract: "normal_contract toy_lib2"
  by (simp add: normal_contract_def toy_lib2_def)

lemma sqrt_16_25: "sqrt (16/25) = 4/5"
  by (rule real_sqrt_unique) (simp_all add: power2_eq_square)

lemma toy2_uniform:
  "correlated_uniform toy_lib2 4 2 (3/5) [0, 1, 2, 3] [1, 2]
     = [Fin (2/25), Fin (7/50), Fin (7/25), Fin (17/50)]"
  by (simp add: correlated_uniform_def toy_lib2_def sqrt_16_25 upt_rec power2_eq_square)

lemma toy2_corr:
  "corr_normal (3/5) [0, 1, 2, 3] [1, 2] 2 = Inr [Fin (4/5), Fin (7/5), Fin (14/5), Fin (17/5)]"
  by (simp add: corr_normal_def np_kron_def np_ones_def np_broadcast2_def np_sqrt_def
      numeral_2_eq_2 sqrt_16_25 power2_eq_square)

lemma toy2_negbinom:
  "negbinom toy_lib2 [Fin (2/25), Fin (7/50), Fin (7/25), Fin (17/50)]
      [Fin 3, Fin 2, Fin 5, Fin 7] 10 (2::nat)
     = Inr ([Fin 11, Fin 16, Fin 33, Fin 41], 3)"
  by (simp add: negbinom_def negbinom_params_def py_truediv_def io_bind_def io_lift_def
      toy_lib2_def np_broadcast2_def)

lemma toy2_dosim_iter:
  "dosim_iter toy_lib2 toy_globals2 1 None ([[], []], []) (0::nat)
     = Inr (([[Fin 104], [Fin 106]], [Fin (1/8)]), 8)"
proof -
  have n: "random_normal toy_lib2 4 (0::nat) = Inr ([0, 1, 2, 3], 1)"
    by (simp add: toy_lib2_def upt_rec)
  have u: "random_normal toy_lib2 2 (Suc 0) = Inr ([1, 2], 2)"
    by (simp add: toy_lib2_def upt_rec)
  have c: "norm_cdf toy_lib2 (Fin v) = Fin (v / 10)" for v
    by (simp add: toy_lib2_def)
  have g0: "GEE toy_lib2 [Fin 11, Fin 16, Fin 33, Fin 41]
      [[1, 1, 2], [1, 2, 3], [1, 3, 4], [1, 4, 5]] g None Poisson (3::nat)
      = Inr ((Fin 101, 3), 4)" for g
    by (simp add: toy_lib2_def)
  have g1: "GEE toy_lib2 [Fin 11, Fin 16, Fin 33, Fin 41]
      [[1, 1, 2, 3, 4], [1, 2, 3, 4, 5], [1, 3, 4, 5, 6], [1, 4, 5, 6, 7]] g None Poisson (5::nat)
      = Inr ((Fin 101, 5), 6)" for g
    by (simp add: toy_lib2_def)
  have f: "fit toy_lib2 m s w = Inr (m, Suc w)" for m s w by (simp add: toy_lib2_def)
  have r: "res_scale toy_lib2 (Fin a, k) = Fin (a + real k)" for a k
    by (simp add: toy_lib2_def)
  have t: "compare_score_test toy_lib2 (a, 5) (b, 3) (7::nat)
      = Inr ([''p-value'' \<mapsto> Fin (1/8)], 8)" for a b
    by (simp add: toy_lib2_def)
  have i: "py_index [[Fin 1, Fin 1, Fin 1, Fin 1], [Fin 3, Fin 2, Fin 5, Fin 7]] 1
      = Inr [Fin 3, Fin 2, Fin 5, Fin 7]"
    by (simp add: py_index_def)
  show ?thesis
    by (simp add: dosim_iter_def toy_globals2_def io_bind_def io_lift_def io_return_def
        py_floordiv_def n u c toy2_corr toy2_negbinom i g0 g1 f r t append_at_def)
qed

lemma toy2_dosim_one:
  "dosim toy_lib2 toy_globals2 1 None 1 (0::nat)
     = Inr (([Fin (1/8), Fin 0], [[Fin 104], [Fin 106]]), 8)"
  by (simp add: dosim_def io_bind_def io_return_def toy2_dosim_iter np_mean_def bool_float_def)

text \<open>
  Claim C3. Let the normal sampler return arrays of the requested length, the cluster
  size divide the sample size and the hypothesis selector be 0 or 1. Whenever \<^verbatim>\<open>dosim\<close>
  returns, its run is a chain of \<open>mcrep\<close> replicates, each of them a
  \<open>replicate_steps\<close>: a normal draw \<open>z\<close> of size \<open>n\<close>; a normal draw \<open>u\<close> of size
  \<open>n // m\<close>; the response generator on the correlated uniform vector, whose entry \<open>i\<close>
  is the normal distribution function at \<open>r * z_i + sqrt (1 - r\<^sup>2) * u_(i div m)\<close>, on
  the null mean vector for \<open>hyp = 0\<close> and the alternative one for \<open>hyp = 1\<close>, and on
  the fixed dispersion; the GEE Poisson model of the response on the null design matrix
  and the fixed groups with the given covariance structure; its fit with
  \<^verbatim>\<open>scale='X2'\<close>; the same on the alternative design matrix; and the score test of the
  alternative model against the null fit, whose p-value field is read. Every call
  starts in the world the one before left, which fixes the order. The two lists returned
  hold the two estimated scale parameters of each replicate, the summary is computed
  from the p-values. The witness runs one replicate with \<open>r = 3/5\<close>, \<open>hyp = 1\<close> and
  two clusters.
\<close>

theorem dosim_replicate_steps:
  assumes "dosim L G hyp cov mcrep w = Inr ((rslt, scales), w')"
    and "normal_contract L" and "glob_m G dvd glob_n G" and "hyp = 0 \<or> hyp = 1"
  shows "\<exists>outs. length outs = nat mcrep \<and> replicates_steps L G hyp cov outs w w'
           \<and> scales = [map fst outs, map (fst \<circ> snd) outs]
           \<and> rslt = [np_mean (map (snd \<circ> snd) outs),
                      np_mean (map (\<lambda>a. bool_float (np_less a (1/10))) (map (snd \<circ> snd) outs))]"
proof -
  from dosim_run [OF assms(1)] obtain outs
    where o: "length outs = nat mcrep" "replicates_run L G hyp cov outs w w'"
      "scales = [map fst outs, map (fst \<circ> snd) outs]"
      "rslt = [np_mean (map (snd \<circ> snd) outs),
          np_mean (map (\<lambda>a. bool_float (np_less a (1/10))) (map (snd \<circ> snd) outs))]"
    by (elim exE conjE)
  from replicates_run_steps [OF o(2) assms(2-4)] o(1,3,4) show ?thesis by blast
qed

theorem dosim_replicate_steps_witness:
  "dosim toy_lib2 toy_globals2 1 None 1 (0::nat)
     = Inr (([Fin (1/8), Fin 0], [[Fin 104], [Fin 106]]), 8)
   \<and> normal_contract toy_lib2 \<and> glob_m toy_globals2 dvd glob_n toy_globals2
   \<and> replicate_steps toy_lib2 toy_globals2 1 None 0 (Fin 104, Fin 106, Fin (1/8)) 8
   \<and> correlated_uniform toy_lib2 4 2 (3/5) [0, 1, 2, 3] [1, 2]
       = [Fin (2/25), Fin (7/50), Fin (7/25), Fin (17/50)]
   \<and> selected_mean toy_globals2 1 = [Fin 3, Fin 2, Fin 5, Fin 7]"
proof -
  have dv: "glob_m toy_globals2 dvd glob_n toy_globals2"
    by (simp add: toy_globals2_def)
  have h: "(1::int) = 0 \<or> (1::int) = 1" by simp
  from dosim_replicate_steps [OF toy2_dosim_one toy2_normal_contract dv h] obtain outs
    where o: "length outs = nat 1" "replicates_steps toy_lib2 toy_globals2 1 None outs 0 8"
      "[[Fin 104], [Fin 106]] = [map fst outs, map (fst \<circ> snd) outs]"
      "[Fin (1/8), Fin 0] = [np_mean (map (snd \<circ> snd) outs),
          np_mean (map (\<lambda>a. bool_float (np_less a (1/10))) (map (snd \<circ> snd) outs))]"
    by (elim exE conjE)
  from o(1) obtain out where out: "outs = [out]"
    by (cases outs) simp_all
  obtain s0 s1 pval where p: "out = (s0, s1, pval)" by (cases out) auto
  from o(3) have "s0 = Fin 104" "s1 = Fin 106" by (simp_all add: out p)
  moreover have "np_mean [pval] = Fin (1/8)" using o(4) by (simp add: out p)
  then have "pval = Fin (1/8)" by (cases pval) (simp_all add: np_mean_def)
  moreover from o(2) have "replicate_steps toy_lib2 toy_globals2 1 None 0 out 8"
    by (simp add: out)
  moreover have "selected_mean toy_globals2 1 = [Fin 3, Fin 2, Fin 5, Fin 7]"
    by (simp add: selected_mean_def toy_globals2_def)
  ultimately show ?thesis
    using toy2_dosim_one toy2_normal_contract dv toy2_uniform p by simp
qed



text \<open>
  Claim C9. With \<open>mcrep = 0\<close> the loop body never runs: both scale lists are empty and
  both entries of the summary are \<^verbatim>\<open>np.mean\<close> of an empty array, which is NaN and so not
  a number in \<open>[0, 1]\<close>. With \<open>mcrep \<ge> 1\<close> and a score test whose p-values lie in
  \<open>[0, 1]\<close>, both entries of the summary lie in \<open>[0, 1]\<close>.
\<close>

theorem dosim_no_replicates:
  "dosim L G hyp cov 0 w = Inr (([NaN, NaN], [[], []]), w)
   \<and> \<not> in_unit NaN
   \<and> (pvalue_contract L \<and> 1 \<le> mcrep
        \<and> dosim L G hyp cov mcrep w = Inr ((rslt, scales), w')
      \<longrightarrow> length rslt = 2 \<and> (\<forall>v \<in> set rslt. in_unit v))"
proof (intro conjI impI)
  show "dosim L G hyp cov 0 w = Inr (([NaN, NaN], [[], []]), w)"
    by (simp add: dosim_def io_bind_def io_return_def np_mean_def)
  show "\<not> in_unit NaN" by (simp add: in_unit_def)
next
  assume a: "pvalue_contract L \<and> 1 \<le> mcrep
      \<and> dosim L G hyp cov mcrep w = Inr ((rslt, scales), w')"
  then have d: "dosim L G hyp cov mcrep w = Inr ((rslt, scales), w')" by simp
  from dosim_run [OF d] obtain outs
    where o: "length outs = nat mcrep" "replicates_run L G hyp cov outs w w'"
      "scales = [map fst outs, map (fst \<circ> snd) outs]"
      "rslt = [np_mean (map (snd \<circ> snd) outs),
          np_mean (map (\<lambda>a. bool_float (np_less a (1/10))) (map (snd \<circ> snd) outs))]"
    by (elim exE conjE)
  let ?pv = "map (snd \<circ> snd) outs"
  have ne: "?pv \<noteq> []" using o(1) a by auto
  have pu: "\<forall>v \<in> set ?pv. in_unit v"
    using replicates_run_pvalues [OF _ o(2)] a by simp
  have bu: "\<forall>v \<in> set (map (\<lambda>a. bool_float (np_less a (1/10))) ?pv). in_unit v"
    by (simp add: bool_float_def in_unit_def)
  have "in_unit (np_mean ?pv)" by (rule np_mean_unit [OF ne pu])
  moreover have "in_unit (np_mean (map (\<lambda>a. bool_float (np_less a (1/10))) ?pv))"
    using ne by (intro np_mean_unit bu) simp
  ultimately show "length rslt = 2" and "\<forall>v \<in> set rslt. in_unit v"
    using o(4) by simp_all
qed

theorem dosim_no_replicates_witness:
  "dosim toy_lib toy_globals 0 None 0 (0::nat) = Inr (([NaN, NaN], [[], []]), 0)
   \<and> pvalue_contract toy_lib \<and> (1::int) \<le> 1
   \<and> dosim toy_lib toy_globals 0 None 1 (0::nat)
       = Inr (([Fin (1/8), Fin 0], [[Fin 3], [Fin 5]]), 8)
   \<and> in_unit (Fin (1/8)) \<and> in_unit (Fin 0)"
proof -
  note t = dosim_no_replicates [of toy_lib toy_globals 0 None "0::nat" 1
      "[Fin (1/8), Fin 0]" "[[Fin 3], [Fin 5]]" 8]
  have a: "dosim toy_lib toy_globals 0 None 0 (0::nat) = Inr (([NaN, NaN], [[], []]), 0)"
    using t by (rule conjunct1)
  have "\<forall>v \<in> set [Fin (1/8), Fin 0]. in_unit v"
    using t toy_pvalue_contract toy_dosim_one by simp
  then show ?thesis using a toy_pvalue_contract toy_dosim_one by simp
qed

section \<open>The design matrices\<close>

lemma np_dot_Inr: "np_dot k a v = Inr d \<longleftrightarrow> k = length v \<and> d = map (\<lambda>row. sum_list (map2 (*) row v)) a"
  by (auto simp: np_dot_def)

lemma set_column0_Inr:
  "set_column0 k a = Inr x \<longleftrightarrow> k \<noteq> 0 \<and> x = map (\<lambda>row. row[0 := 1]) a"
  by (auto simp: set_column0_def)

lemma module_globals_Inr:
  assumes "module_globals L n p m r scale w = Inr (G, w1)"
  shows "\<exists>g xr lp0 lp1. grp n m = Inr g \<and> random_normal_2d L n p w = Inr (xr, w1) \<and> p = 5
           \<and> np_dot 3 (x0 (map (\<lambda>row. row[0 := 1]) xr)) (coeff ! 0) = Inr lp0
           \<and> np_dot 5 (map (\<lambda>row. row[0 := 1]) xr) (coeff ! 1) = Inr lp1
           \<and> G = \<lparr> glob_n = n, glob_p = p, glob_m = m, glob_r = r, glob_grp = g,
                   glob_x = map (\<lambda>row. row[0 := 1]) xr,
                   glob_x0 = x0 (map (\<lambda>row. row[0 := 1]) xr), glob_scale = scale,
                   glob_mu = [map (\<lambda>a. Fin (exp a)) lp0, map (\<lambda>a. Fin (exp a)) lp1] \<rparr>"
proof -
  have "\<exists>g xr x lp0 lp1. grp n m = Inr g \<and> random_normal_2d L n p w = Inr (xr, w1)
      \<and> set_column0 p xr = Inr x
      \<and> np_dot (min 3 p) (x0 x) (coeff ! 0) = Inr lp0
      \<and> np_dot p x (coeff ! 1) = Inr lp1
      \<and> G = \<lparr> glob_n = n, glob_p = p, glob_m = m, glob_r = r, glob_grp = g,
              glob_x = x, glob_x0 = x0 x, glob_scale = scale,
              glob_mu = [map (\<lambda>a. Fin (exp a)) lp0, map (\<lambda>a. Fin (exp a)) lp1] \<rparr>"
    using assms unfolding module_globals_def io_bind_Inr io_lift_Inr io_return_Inr
    by (elim exE conjE, hypsubst) (intro exI conjI; assumption?; rule refl)
  then obtain g xr x lp0 lp1 where h: "grp n m = Inr g"
      "random_normal_2d L n p w = Inr (xr, w1)"
      "set_column0 p xr = Inr x"
      "np_dot (min 3 p) (x0 x) (coeff ! 0) = Inr lp0"
      "np_dot p x (coeff ! 1) = Inr lp1"
      "G = \<lparr> glob_n = n, glob_p = p, glob_m = m, glob_r = r, glob_grp = g,
              glob_x = x, glob_x0 = x0 x, glob_scale = scale,
              glob_mu = [map (\<lambda>a. Fin (exp a)) lp0, map (\<lambda>a. Fin (exp a)) lp1] \<rparr>"
    by (elim exE conjE)
  from h(5) have p: "p = 5" by (simp add: np_dot_Inr coeff_def)
  from h(3) have x: "x = map (\<lambda>row. row[0 := 1]) xr" by (simp add: set_column0_Inr)
  show ?thesis
    using h(1,2,4,5,6) p x by simp
qed

lemma nested_row:
  fixes row b :: "real list"
  assumes "length b = 3"
  shows "sum_list (map2 (*) (take 3 row) b) = sum_list (map2 (*) row (b @ [0, 0]))"
proof -
  have "zip row (b @ [0, 0]) = zip (take 3 row) b @ zip (drop 3 row) [0, 0]"
    using assms by (simp add: zip_append2)
  moreover have "sum_list (map2 (*) (drop 3 row) [0, 0::real]) = 0"
    by (cases "drop 3 row"; cases "tl (drop 3 row)"; auto)
  ultimately show ?thesis by simp
qed

lemma nested_dot:
  assumes "length b = 3"
  shows "np_dot 3 (x0 X) b = np_dot 5 X (b @ [0, 0])"
  using assms by (simp add: np_dot_def x0_def comp_def nested_row)

lemma nested_independent:
  assumes "lin_indep_cols 5 X"
  shows "lin_indep_cols 3 (x0 X)"
  unfolding lin_indep_cols_def
proof (intro allI impI)
  fix b :: "real list"
  assume b: "length b = 3 \<and> (\<forall>row \<in> set (x0 X). sum_list (map2 (*) row b) = 0)"
  then have len: "length b = 3" by simp
  have "\<forall>row \<in> set X. sum_list (map2 (*) row (b @ [0, 0])) = 0"
  proof
    fix row assume "row \<in> set X"
    then have "take 3 row \<in> set (x0 X)" by (simp add: x0_def)
    then have "sum_list (map2 (*) (take 3 row) b) = 0" using b by blast
    then show "sum_list (map2 (*) row (b @ [0, 0])) = 0"
      by (simp only: nested_row [OF len])
  qed
  moreover have "length (b @ [0, 0]) = 5" using len by simp
  ultimately have "\<forall>c \<in> set (b @ [0, 0]). c = 0"
    using assms unfolding lin_indep_cols_def by blast
  then show "\<forall>c \<in> set b. c = 0" by simp
qed

lemma toy_normal_2d_contract: "normal_2d_contract toy_lib"
  by (simp add: normal_2d_contract_def toy_lib_def)

lemma toy_module_globals:
  "\<exists>G. module_globals toy_lib 2 5 2 0 10 (0::nat) = Inr (G, 1)
     \<and> glob_x G = [[1, 1, 2, 3, 4], [1, 2, 3, 4, 5]]
     \<and> glob_x0 G = [[1, 1, 2], [1, 2, 3]] \<and> glob_grp G = [0, 0]"
proof -
  have g: "grp 2 2 = Inr [0, 0]"
    by (simp add: grp_def py_truediv_def np_arange_def np_kron_def np_ones_def numeral_2_eq_2)
  have x: "random_normal_2d toy_lib 2 5 (0::nat)
      = Inr ([[0, 1, 2, 3, 4], [1, 2, 3, 4, 5]], 1)"
    by (simp add: toy_lib_def upt_rec numeral_2_eq_2)
  show ?thesis
    by (simp add: module_globals_def io_bind_def io_lift_def io_return_def g x
        set_column0_def np_dot_def coeff_def x0_def)
qed

text \<open>
  Claim C7. When the module's globals have been built, the alternative design matrix has
  \<open>n\<close> rows and \<open>p = 5\<close> columns (any other \<open>p\<close> fails in \<^verbatim>\<open>np.dot\<close>), its first
  column is 1, and the null design matrix is its first three columns. The null model is
  nested: every linear predictor of the null model is one of the alternative model,
  with the last two coefficients 0. It has two columns fewer, and if the five columns of
  the alternative matrix are linearly independent, so are the three of the null matrix:
  the ranks are then 5 and 3 (independence of columns drawn at random holds almost
  surely, not for every draw). Both matrices are fields of the globals, which \<^verbatim>\<open>dosim\<close>
  takes as an argument and never returns changed.
\<close>

theorem design_matrices_nested:
  assumes "module_globals L n p m r scale w = Inr (G, w1)" and "normal_2d_contract L"
  shows "p = 5 \<and> glob_p G = 5
       \<and> length (glob_x G) = n
       \<and> (\<forall>row \<in> set (glob_x G). length row = 5 \<and> row ! 0 = 1)
       \<and> glob_x0 G = map (take 3) (glob_x G)
       \<and> length (glob_x0 G) = n
       \<and> (\<forall>row \<in> set (glob_x0 G). length row = 3)
       \<and> (\<forall>b. length b = 3 \<longrightarrow> np_dot 3 (glob_x0 G) b = np_dot 5 (glob_x G) (b @ [0, 0]))
       \<and> (lin_indep_cols 5 (glob_x G) \<longrightarrow> lin_indep_cols 3 (glob_x0 G))"
proof -
  from module_globals_Inr [OF assms(1)] obtain g xr lp0 lp1
    where h: "random_normal_2d L n p w = Inr (xr, w1)" "p = 5"
      "G = \<lparr> glob_n = n, glob_p = p, glob_m = m, glob_r = r, glob_grp = g,
              glob_x = map (\<lambda>row. row[0 := 1]) xr,
              glob_x0 = x0 (map (\<lambda>row. row[0 := 1]) xr), glob_scale = scale,
              glob_mu = [map (\<lambda>a. Fin (exp a)) lp0, map (\<lambda>a. Fin (exp a)) lp1] \<rparr>"
    by (elim exE conjE)
  from assms(2) obtain xr' w1' where "random_normal_2d L n p w = Inr (xr', w1')"
      "length xr' = n" "\<forall>row \<in> set xr'. length row = p"
    unfolding normal_2d_contract_def by blast
  with h(1) have shape: "length xr = n" "\<forall>row \<in> set xr. length row = 5"
    using h(2) by simp_all
  let ?x = "map (\<lambda>row. row[0 := 1]) xr"
  have gx: "glob_x G = ?x" and gx0: "glob_x0 G = x0 ?x" and gp: "glob_p G = 5"
    using h(2,3) by simp_all
  have rows: "\<forall>row \<in> set ?x. length row = 5 \<and> row ! 0 = 1"
    using shape(2) by auto
  have rows0: "\<forall>row \<in> set (x0 ?x). length row = 3"
    using rows by (auto simp: x0_def)
  show ?thesis
    unfolding gx gx0
    using h(2) gp shape(1) rows rows0 nested_dot [of _ ?x] nested_independent [of ?x]
    by (simp add: x0_def [symmetric]) (simp add: x0_def)
qed

theorem design_matrices_nested_witness:
  "normal_2d_contract toy_lib
   \<and> (\<exists>G. module_globals toy_lib 2 5 2 0 10 (0::nat) = Inr (G, 1)
         \<and> glob_x G = [[1, 1, 2, 3, 4], [1, 2, 3, 4, 5]]
         \<and> glob_x0 G = [[1, 1, 2], [1, 2, 3]]
         \<and> glob_p G = 5 \<and> length (glob_x G) = 2 \<and> length (glob_x0 G) = 2
         \<and> np_dot 3 (glob_x0 G) [1, 1, 1] = np_dot 5 (glob_x G) ([1, 1, 1] @ [0, 0]))"
proof -
  from toy_module_globals obtain G
    where G: "module_globals toy_lib 2 5 2 0 10 (0::nat) = Inr (G, 1)"
      "glob_x G = [[1, 1, 2, 3, 4], [1, 2, 3, 4, 5]]" "glob_x0 G = [[1, 1, 2], [1, 2, 3]]"
    by (elim exE conjE)
  note t = design_matrices_nested [OF G(1) toy_normal_2d_contract]
  have "glob_p G = 5" "length (glob_x G) = 2" "length (glob_x0 G) = 2"
    using t by simp_all
  moreover have "\<forall>b. length b = 3
      \<longrightarrow> np_dot 3 (glob_x0 G) b = np_dot 5 (glob_x G) (b @ [0, 0])"
    using t by (elim conjE)
  then have "np_dot 3 (glob_x0 G) [1, 1, 1] = np_dot 5 (glob_x G) ([1, 1, 1] @ [0, 0])"
    by (elim allE [of _ "[1, 1, 1]"] impE) simp_all
  ultimately show ?thesis using G toy_normal_2d_contract by blast
qed

section \<open>The reporting stage, twice\<close>

lemma dosim_shape:
  assumes "dosim L G hyp cov mcrep w = Inr ((s, t), w')"
  shows "length t = 2 \<and> (\<forall>l \<in> set t. length l = nat mcrep)"
  using dosim_run [OF assms] by (elim exE conjE) simp

lemma report_cycle_run:
  assumes "report_cycle L G cov mcrep w = Inr ((rslt, scales), w')"
  shows "cycle_run L G cov mcrep w scales w'"
proof -
  have "\<exists>s_0 t_0 w1 s_1 t_1 w2.
      dosim L G 0 cov mcrep w = Inr ((s_0, t_0), w1)
    \<and> dosim L G 1 cov mcrep w1 = Inr ((s_1, t_1), w2)
    \<and> print_frame L [s_0, s_1] [''H0'', ''H1''] [''Mean'', ''Prop(p<0.1)''] w2 = Inr ((), w')
    \<and> scales = [t_0, t_1]"
    using assms
    by (auto simp: report_cycle_def io_bind_Inr io_return_Inr)
  then obtain s_0 t_0 w1 s_1 t_1 w2 where h:
      "dosim L G 0 cov mcrep w = Inr ((s_0, t_0), w1)"
      "dosim L G 1 cov mcrep w1 = Inr ((s_1, t_1), w2)"
      "print_frame L [s_0, s_1] [''H0'', ''H1''] [''Mean'', ''Prop(p<0.1)''] w2 = Inr ((), w')"
      "scales = [t_0, t_1]"
    by (elim exE conjE)
  have "length t_0 = 2 \<and> length t_1 = 2 \<and> (\<forall>l \<in> set (t_0 @ t_1). length l = nat mcrep)"
    using dosim_shape [OF h(1)] dosim_shape [OF h(2)] by auto
  then show ?thesis
    unfolding cycle_run_def using h by blast
qed

lemma module_globals_total:
  assumes nc: "normal_2d_contract L" and m: "0 < m" and dv: "m dvd n" and s: "1 < scale"
  shows "\<exists>G w1. module_globals L n 5 m r scale w = Inr (G, w1) \<and> globals_ok G"
proof -
  let ?k = "n div m"
  let ?g = "np_kron (np_arange (real n / real m)) (np_ones m)"
  have g: "grp n m = Inr ?g"
    using m by (simp add: grp_def py_truediv_def)
  from nc obtain xr w1 where xr: "random_normal_2d L n 5 w = Inr (xr, w1)" "length xr = n"
    unfolding normal_2d_contract_def by blast
  let ?x = "map (\<lambda>row. row[0 := 1]) xr"
  let ?lp0 = "map (\<lambda>row. sum_list (map2 (*) row (coeff ! 0))) (x0 ?x)"
  let ?lp1 = "map (\<lambda>row. sum_list (map2 (*) row (coeff ! 1))) ?x"
  let ?G = "\<lparr> glob_n = n, glob_p = 5, glob_m = m, glob_r = r, glob_grp = ?g,
              glob_x = ?x, glob_x0 = x0 ?x, glob_scale = scale,
              glob_mu = [map (\<lambda>a. Fin (exp a)) ?lp0, map (\<lambda>a. Fin (exp a)) ?lp1] \<rparr>"
  have "module_globals L n 5 m r scale w = Inr (?G, w1)"
    unfolding module_globals_def
    by (simp add: io_bind_def io_lift_def io_return_def g xr(1) set_column0_def np_dot_def
        coeff_def)
  moreover have "globals_ok ?G"
    using m dv s xr(2) by (auto simp: globals_ok_def x0_def)
  ultimately show ?thesis by blast
qed

lemma report_cycle_total:
  assumes "normal_contract L" and "gamma_contract L" and "gee_contract L"
    and "globals_ok G" and rc: "report_contract L"
  shows "\<exists>rslt scales w'. report_cycle L G cov mcrep w = Inr ((rslt, scales), w')"
proof -
  have h0: "(0::int) = 0 \<or> (0::int) = 1" and h1: "(1::int) = 0 \<or> (1::int) = 1" by simp_all
  from dosim_total [OF assms(1-4) h0] obtain s_0 t_0 w1
    where a: "dosim L G 0 cov mcrep w = Inr ((s_0, t_0), w1)" by blast
  from dosim_total [OF assms(1-4) h1] obtain s_1 t_1 w2
    where b: "dosim L G 1 cov mcrep w1 = Inr ((s_1, t_1), w2)" by blast
  from rc obtain w3
    where c: "print_frame L [s_0, s_1] [''H0'', ''H1''] [''Mean'', ''Prop(p<0.1)''] w2
        = Inr ((), w3)"
    unfolding report_contract_def by blast
  show ?thesis
    by (simp add: report_cycle_def io_bind_def io_return_def a b c)
qed

lemma boxplot_groups_ok:
  assumes "length t_0 = 2" and "length t_1 = 2"
  shows "\<exists>groups. boxplot_groups [t_0, t_1] = Inr groups"
  using assms by (simp add: boxplot_groups_def index2_def py_index_def)

lemma script_total:
  assumes nc: "normal_contract L" and n2: "normal_2d_contract L" and gc: "gamma_contract L"
    and ge: "gee_contract L" and rc: "report_contract L"
    and m: "0 < m" and dv: "m dvd n" and s: "1 < scale"
  shows "\<exists>w'. script L n 5 m r scale w = Inr ((), w')"
proof -
  from module_globals_total [OF n2 m dv s] obtain G w1
    where G: "module_globals L n 5 m r scale w = Inr (G, w1)" "globals_ok G" by blast
  from report_cycle_total [OF nc gc ge G(2) rc] obtain rslt1 scales1 w2
    where c1: "report_cycle L G (Some Independence) dosim_mcrep_default w1
        = Inr ((rslt1, scales1), w2)" by blast
  from report_cycle_run [OF c1] obtain t_0 t_1
    where sc: "scales1 = [t_0, t_1]" "length t_0 = 2" "length t_1 = 2"
    unfolding cycle_run_def by blast
  from boxplot_groups_ok [OF sc(2,3)] obtain groups
    where bg: "boxplot_groups scales1 = Inr groups" unfolding sc(1) by blast
  from rc obtain w3 where b: "boxplot L groups w2 = Inr ((), w3)"
    unfolding report_contract_def by blast
  from rc obtain w4 where y: "ylabel L ''Estimated scale'' w3 = Inr ((), w4)"
    unfolding report_contract_def by blast
  from report_cycle_total [OF nc gc ge G(2) rc] obtain rslt2 scales2 w5
    where c2: "report_cycle L G (Some Exchangeable) 100 w4 = Inr ((rslt2, scales2), w5)"
    by blast
  show ?thesis
    by (simp add: script_def io_bind_def io_lift_def io_return_def G(1) c1 bg b y c2)
qed

lemma toy_report_contract: "report_contract toy_lib"
  by (simp add: report_contract_def toy_lib_def)

text \<open>
  Claim C10. Whenever the script runs to its end, it has built the globals once and then
  run the reporting cycle (\<open>cycle_run\<close>: the driver under the null hypothesis, the driver
  under the alternative, the printed table) twice on these same globals: first with the
  independence structure and the driver's default of 500 replicates, then, after the box
  plot of the first cycle's scale estimates and its label, with the exchangeable
  structure and 100 replicates, fewer than 500. In each cycle all four scale lists have
  as many entries as the cycle has replicates. The box plot is drawn once, between the
  two cycles; it is a step of the script and not of the cycle.
\<close>

theorem reporting_two_cycles:
  assumes "gee_score_test_simulation L w = Inr ((), w')"
  shows "\<exists>G w1 scales1 w2 groups w3 w4 scales2.
           module_globals L 1000 5 10 (1/2) 10 w = Inr (G, w1)
         \<and> cycle_run L G (Some Independence) dosim_mcrep_default w1 scales1 w2
         \<and> boxplot_groups scales1 = Inr groups
         \<and> boxplot L groups w2 = Inr ((), w3)
         \<and> ylabel L ''Estimated scale'' w3 = Inr ((), w4)
         \<and> cycle_run L G (Some Exchangeable) 100 w4 scales2 w'
         \<and> dosim_mcrep_default = 500 \<and> (100::int) < dosim_mcrep_default"
proof -
  have "\<exists>G w1 rslt1 scales1 w2 groups w3 w4 rslt2 scales2.
      module_globals L 1000 5 10 (1/2) 10 w = Inr (G, w1)
    \<and> report_cycle L G (Some Independence) dosim_mcrep_default w1 = Inr ((rslt1, scales1), w2)
    \<and> boxplot_groups scales1 = Inr groups
    \<and> boxplot L groups w2 = Inr ((), w3)
    \<and> ylabel L ''Estimated scale'' w3 = Inr ((), w4)
    \<and> report_cycle L G (Some Exchangeable) 100 w4 = Inr ((rslt2, scales2), w')"
    using assms
    by (auto simp: gee_score_test_simulation_def script_def io_bind_Inr io_lift_Inr
        io_return_Inr)
  then obtain G w1 rslt1 scales1 w2 groups w3 w4 rslt2 scales2 where h:
      "module_globals L 1000 5 10 (1/2) 10 w = Inr (G, w1)"
      "report_cycle L G (Some Independence) dosim_mcrep_default w1 = Inr ((rslt1, scales1), w2)"
      "boxplot_groups scales1 = Inr groups"
      "boxplot L groups w2 = Inr ((), w3)"
      "ylabel L ''Estimated scale'' w3 = Inr ((), w4)"
      "report_cycle L G (Some Exchangeable) 100 w4 = Inr ((rslt2, scales2), w')"
    by (elim exE conjE)
  have "dosim_mcrep_default = 500" "(100::int) < dosim_mcrep_default"
    by (simp_all add: dosim_mcrep_default_def)
  then show ?thesis
    using h(1) report_cycle_run [OF h(2)] h(3,4,5) report_cycle_run [OF h(6)] by blast
qed

theorem reporting_two_cycles_witness:
  "\<exists>w' G w1 scales1 w2 groups w3 w4 scales2.
      gee_score_test_simulation toy_lib (0::nat) = Inr ((), w')
    \<and> module_globals toy_lib 1000 5 10 (1/2) 10 0 = Inr (G, w1)
    \<and> cycle_run toy_lib G (Some Independence) 500 w1 scales1 w2
    \<and> boxplot_groups scales1 = Inr groups
    \<and> boxplot toy_lib groups w2 = Inr ((), w3)
    \<and> ylabel toy_lib ''Estimated scale'' w3 = Inr ((), w4)
    \<and> cycle_run toy_lib G (Some Exchangeable) 100 w4 scales2 w'"
proof -
  have m: "(0::nat) < 10" and dv: "(10::nat) dvd 1000" and s: "(1::real) < 10" by simp_all
  from script_total [OF toy_normal_contract toy_normal_2d_contract toy_gamma_contract
      toy_gee_contract toy_report_contract m dv s, of "1/2" 0]
  obtain w' where r: "gee_score_test_simulation toy_lib (0::nat) = Inr ((), w')"
    unfolding gee_score_test_simulation_def by blast
  from reporting_two_cycles [OF r] obtain G w1 scales1 w2 groups w3 w4 scales2
    where h: "module_globals toy_lib 1000 5 10 (1/2) 10 0 = Inr (G, w1)"
      "cycle_run toy_lib G (Some Independence) dosim_mcrep_default w1 scales1 w2"
      "boxplot_groups scales1 = Inr groups"
      "boxplot toy_lib groups w2 = Inr ((), w3)"
      "ylabel toy_lib ''Estimated scale'' w3 = Inr ((), w4)"
      "cycle_run toy_lib G (Some Exchangeable) 100 w4 scales2 w'"
      "dosim_mcrep_default = 500" "(100::int) < dosim_mcrep_default"
    by (elim exE conjE)
  show ?thesis
    using r h(1) h(2) [unfolded h(7)] h(3,4,5,6) by (intro exI conjI)
qed

end
